theory Spec2Isabelle
  imports Complex_Main "HOL-Library.Word"
begin

unbundle bit_operations_syntax

section \<open>Data model\<close>

text \<open>
  The driver \<^verbatim>\<open>hal::mpl311::mpl311\<close> of \<^verbatim>\<open>src/src/mpl311.cpp\<close> talks to the sensor through
  \<^verbatim>\<open>hal::write\<close>, \<^verbatim>\<open>hal::write_then_read\<close> and \<^verbatim>\<open>hal::delay\<close>. It keeps one field of its own,
  \<^verbatim>\<open>sensor_mode\<close>. The header \<^verbatim>\<open>include/libhal-mpl/mpl.hpp\<close> declares the public surface
  (\<^verbatim>\<open>create\<close>, the three reads, the two setters) and the mode enumeration.
\<close>

type_synonym byte = "8 word"
type_synonym ulong = "32 word"

text \<open>\<^verbatim>\<open>enum class mpl_mode_t { BAROMETER_M = 0, ALTIMETER_M = 1 }\<close> of the header.\<close>

datatype mpl311_mode_t = BAROMETER_M | ALTIMETER_M

fun mode_value :: "mpl311_mode_t \<Rightarrow> int" where
  "mode_value BAROMETER_M = 0"
| "mode_value ALTIMETER_M = 1"

text \<open>
  The register addresses and bit masks are named in \<^verbatim>\<open>mpl311.cpp\<close> and declared in
  \<^verbatim>\<open>libhal-mpl311/mpl311.hpp\<close>, which the repository's sources do not include. They are
  taken as a parameter: one record holding every constant the code names.
\<close>

record regmap =
  device_address :: byte
  WHOAMI_R :: byte
  CTRL_REG1 :: byte
  CTRL_REG1_RST :: byte
  CTRL_REG1_OS128 :: byte
  CTRL_REG1_ALT :: byte
  CTRL_REG1_OST :: byte
  PT_DATA_CFG_R :: byte
  PT_DATA_CFG_TDEFE :: byte
  PT_DATA_CFG_PDEFE :: byte
  PT_DATA_CFG_DREM :: byte
  STATUS_R :: byte
  STATUS_PTDR :: byte
  OUT_T_MSB_R :: byte
  OUT_P_MSB_R :: byte
  BAR_IN_MSB_R :: byte
  OFF_H_R :: byte

text \<open>
  Outcomes other than a value. \<open>BusError\<close> carries the transport's error code.
  \<open>IndexOutOfBounds\<close> stands for the executions that C++ leaves undefined because
  \<^verbatim>\<open>std::array::operator[]\<close> is used past the end. \<open>UnexpectedDevice\<close> is raised by \<open>create\<close>
  only.
\<close>

datatype error = BusError nat | UnexpectedDevice | IndexOutOfBounds

text \<open>
  The bus traffic is observed through a trace. Every transaction the driver issues is logged
  with its outcome: the error code when the transport failed it (\<open>Inl\<close>), otherwise the
  acknowledgement of a write or the buffer a write-then-read filled, together with the
  number of bytes asked for.
\<close>

datatype bus_event =
    Write "byte list" "nat + unit"
  | WriteThenRead "byte list" nat "nat + byte list"
  | Delay

text \<open>
  The transport and the clock are external collaborators. They are functions on the state
  \<open>'d\<close> of whatever is behind the bus: a transaction takes the device address, the bytes to
  write and the number of bytes to read, and either fails with an error code or gives the
  content of every cell of the read span. \<^verbatim>\<open>hal::write\<close> is a transaction that reads nothing.
\<close>

record 'd hw =
  i2c_transaction :: "byte \<Rightarrow> byte list \<Rightarrow> nat \<Rightarrow> 'd \<Rightarrow> (nat + (nat \<Rightarrow> byte)) \<times> 'd"
  clk_delay :: "'d \<Rightarrow> 'd"

record 'd world =
  device :: 'd
  trace :: "bus_event list"
  sensor_mode :: mpl311_mode_t

section \<open>Sequencing and the transport wrappers\<close>

text \<open>
  Modelled from the spec: \<^verbatim>\<open>HAL_CHECK\<close>, a macro of the transport library whose definition
  is not among the sources. Section 7: "every failure aborts the current operation and is
  returned to the caller". So a failed transaction ends the operation in progress, through
  the helper that issued it, and the caller of the public operation gets the transport's
  error. \<open>and_then\<close> is that propagation; the functions the source declares \<^verbatim>\<open>void\<close> or
  \<^verbatim>\<open>bool\<close> and fills with \<^verbatim>\<open>HAL_CHECK\<close> return an error or their value here.
\<close>

definition and_then ::
  "('s \<Rightarrow> (error + 'a) \<times> 's) \<Rightarrow> ('a \<Rightarrow> 's \<Rightarrow> (error + 'b) \<times> 's) \<Rightarrow> 's \<Rightarrow> (error + 'b) \<times> 's" where
  "and_then m f s = (case m s of (Inl e, s') \<Rightarrow> (Inl e, s') | (Inr x, s') \<Rightarrow> f x s')"

definition hal_write :: "regmap \<Rightarrow> 'd hw \<Rightarrow> byte list \<Rightarrow> 'd world \<Rightarrow> (error + unit) \<times> 'd world" where
  "hal_write c h payload s =
     (case i2c_transaction h (device_address c) payload 0 (device s) of
        (Inl code, d') \<Rightarrow>
          (Inl (BusError code), s\<lparr>device := d', trace := trace s @ [Write payload (Inl code)]\<rparr>)
      | (Inr _, d') \<Rightarrow>
          (Inr (), s\<lparr>device := d', trace := trace s @ [Write payload (Inr ())]\<rparr>))"

definition hal_write_then_read ::
  "regmap \<Rightarrow> 'd hw \<Rightarrow> byte list \<Rightarrow> nat \<Rightarrow> 'd world \<Rightarrow> (error + byte list) \<times> 'd world" where
  "hal_write_then_read c h payload n s =
     (case i2c_transaction h (device_address c) payload n (device s) of
        (Inl code, d') \<Rightarrow>
          (Inl (BusError code),
           s\<lparr>device := d', trace := trace s @ [WriteThenRead payload n (Inl code)]\<rparr>)
      | (Inr f, d') \<Rightarrow>
          (Inr (map f [0..<n]),
           s\<lparr>device := d', trace := trace s @ [WriteThenRead payload n (Inr (map f [0..<n]))]\<rparr>))"

definition hal_delay :: "'d hw \<Rightarrow> 'd world \<Rightarrow> 'd world" where
  "hal_delay h s = s\<lparr>device := clk_delay h (device s), trace := trace s @ [Delay]\<rparr>"

text \<open>\<^verbatim>\<open>buffer[i]\<close> on a \<^verbatim>\<open>std::array\<close>: defined for \<open>i\<close> below the size only.\<close>

definition array_at :: "'a list \<Rightarrow> nat \<Rightarrow> 's \<Rightarrow> (error + 'a) \<times> 's" where
  "array_at buf i s = (if i < length buf then (Inr (buf ! i), s) else (Inl IndexOutOfBounds, s))"

section \<open>Mode switching\<close>

text \<open>
  \<^verbatim>\<open>ctrl_buffer[0] ^= (-mode ^ ctrl_buffer[0]) & (1UL << 7)\<close>. The byte is promoted, the
  mask is an \<^verbatim>\<open>unsigned long\<close>, and the result is cut back to a byte. The width of
  \<^verbatim>\<open>unsigned long\<close> (32 bits here) does not reach the low byte.
\<close>

definition mode_set_reg :: "mpl311_mode_t \<Rightarrow> byte \<Rightarrow> byte" where
  "mode_set_reg mode b =
     ucast ((ucast b :: ulong) XOR (((- word_of_int (mode_value mode)) XOR ucast b) AND push_bit 7 1))"

definition set_mode :: "regmap \<Rightarrow> 'd hw \<Rightarrow> mpl311_mode_t \<Rightarrow> 'd world \<Rightarrow> (error + unit) \<times> 'd world" where
  "set_mode c h mode =
     and_then (hal_write_then_read c h [CTRL_REG1 c] 1) (\<lambda>ctrl_buffer.
     and_then (array_at ctrl_buffer 0) (\<lambda>b0.
     and_then (hal_write c h [CTRL_REG1 c, mode_set_reg mode b0]) (\<lambda>_ s.
       (Inr (), s\<lparr>sensor_mode := mode\<rparr>))))"

section \<open>Operations that may poll forever\<close>

text \<open>
  The three polling loops of the driver have no bound. An operation that contains one gives
  \<open>None\<close> when it never returns. \<open>returns\<close> embeds an operation without a loop.
\<close>

definition and_then_p ::
  "('s \<Rightarrow> ((error + 'a) \<times> 's) option) \<Rightarrow> ('a \<Rightarrow> 's \<Rightarrow> ((error + 'b) \<times> 's) option)
     \<Rightarrow> 's \<Rightarrow> ((error + 'b) \<times> 's) option" where
  "and_then_p m f s =
     (case m s of None \<Rightarrow> None | Some (Inl e, s') \<Rightarrow> Some (Inl e, s') | Some (Inr x, s') \<Rightarrow> f x s')"

definition returns :: "('s \<Rightarrow> 'r) \<Rightarrow> 's \<Rightarrow> 'r option" where
  "returns m s = Some (m s)"

section \<open>Initialisation\<close>

text \<open>The \<^verbatim>\<open>while (1)\<close> of \<^verbatim>\<open>begin\<close>: read control register 1 until the reset bit is clear.\<close>

partial_function (option) begin_reset_loop ::
  "regmap \<Rightarrow> 'd hw \<Rightarrow> 'd world \<Rightarrow> ((error + unit) \<times> 'd world) option" where
  "begin_reset_loop c h s =
     (case and_then (hal_write_then_read c h [CTRL_REG1 c] 1) (\<lambda>ctrl_buffer. array_at ctrl_buffer 0) s of
        (Inl e, s') \<Rightarrow> Some (Inl e, s')
      | (Inr b0, s') \<Rightarrow>
          if b0 AND CTRL_REG1_RST c = 0 then Some (Inr (), s')
          else begin_reset_loop c h (hal_delay h s'))"

text \<open>\<^verbatim>\<open>bool mpl311::begin()\<close> (\<open>begin\<close> is a keyword here, hence the prefix).\<close>

definition mpl311_begin :: "regmap \<Rightarrow> 'd hw \<Rightarrow> 'd world \<Rightarrow> ((error + bool) \<times> 'd world) option" where
  "mpl311_begin c h =
     and_then_p (returns (hal_write_then_read c h [WHOAMI_R c] 1)) (\<lambda>whoami_buffer.
     and_then_p (returns (array_at whoami_buffer 0)) (\<lambda>w0.
     if w0 \<noteq> 0xC4 then returns (\<lambda>s. (Inr False, s))
     else
     and_then_p (returns (hal_write c h [CTRL_REG1 c, CTRL_REG1_RST c])) (\<lambda>_.
     and_then_p (begin_reset_loop c h) (\<lambda>_.
     and_then_p (returns (\<lambda>s. (Inr (), s\<lparr>sensor_mode := ALTIMETER_M\<rparr>))) (\<lambda>_.
     and_then_p (returns (hal_write c h [CTRL_REG1 c, CTRL_REG1_OS128 c OR CTRL_REG1_ALT c])) (\<lambda>_.
     and_then_p (returns (hal_write c h
        [PT_DATA_CFG_R c, PT_DATA_CFG_TDEFE c OR PT_DATA_CFG_PDEFE c OR PT_DATA_CFG_DREM c])) (\<lambda>_.
     returns (\<lambda>s. (Inr True, s)))))))))"

text \<open>
  Modelled from the spec: \<^verbatim>\<open>create\<close> is declared in the header and its body is not among the
  sources. Section 4.1: it runs the initialisation sequence on the new driver; an identity
  byte other than 0xC4 "fails with UnexpectedDevice"; a transport failure propagates; on
  success the constructed driver is returned (here: the state left by \<open>mpl311_begin\<close>).
\<close>

definition create :: "regmap \<Rightarrow> 'd hw \<Rightarrow> 'd world \<Rightarrow> ((error + unit) \<times> 'd world) option" where
  "create c h =
     and_then_p (mpl311_begin c h) (\<lambda>ok.
     returns (\<lambda>s. if ok then (Inr (), s) else (Inl UnexpectedDevice, s)))"

section \<open>One-shot trigger and data-ready polling\<close>

text \<open>The \<^verbatim>\<open>while (1)\<close> of \<^verbatim>\<open>initiate_one_shot\<close>; it leaves the byte last read in \<^verbatim>\<open>ctrl_buffer[0]\<close>.\<close>

partial_function (option) initiate_one_shot_loop ::
  "regmap \<Rightarrow> 'd hw \<Rightarrow> 'd world \<Rightarrow> ((error + byte) \<times> 'd world) option" where
  "initiate_one_shot_loop c h s =
     (case and_then (hal_write_then_read c h [CTRL_REG1 c] 1) (\<lambda>ctrl_buffer. array_at ctrl_buffer 0) s of
        (Inl e, s') \<Rightarrow> Some (Inl e, s')
      | (Inr b0, s') \<Rightarrow>
          if b0 AND CTRL_REG1_OST c = 0 then Some (Inr b0, s')
          else initiate_one_shot_loop c h (hal_delay h s'))"

text \<open>\<^verbatim>\<open>ctrl_buffer[0] |= 1UL << 1\<close>\<close>

definition ost_set_reg :: "byte \<Rightarrow> byte" where
  "ost_set_reg b = ucast ((ucast b :: ulong) OR push_bit 1 1)"

definition initiate_one_shot :: "regmap \<Rightarrow> 'd hw \<Rightarrow> 'd world \<Rightarrow> ((error + unit) \<times> 'd world) option" where
  "initiate_one_shot c h =
     and_then_p (initiate_one_shot_loop c h) (\<lambda>b0.
     returns (hal_write c h [CTRL_REG1 c, ost_set_reg b0]))"

definition check_data_ready_flag :: "regmap \<Rightarrow> 'd hw \<Rightarrow> 'd world \<Rightarrow> (error + bool) \<times> 'd world" where
  "check_data_ready_flag c h =
     and_then (hal_write_then_read c h [STATUS_R c] 1) (\<lambda>status_buffer.
     and_then (array_at status_buffer 0) (\<lambda>b0 s.
       (Inr (b0 AND STATUS_PTDR c \<noteq> 0), s)))"

text \<open>
  \<^verbatim>\<open>while (!check_data_ready_flag()) hal::delay(m_clk, 10ms);\<close>, written out in each of the
  three reading operations.
\<close>

partial_function (option) data_ready_loop ::
  "regmap \<Rightarrow> 'd hw \<Rightarrow> 'd world \<Rightarrow> ((error + unit) \<times> 'd world) option" where
  "data_ready_loop c h s =
     (case check_data_ready_flag c h s of
        (Inl e, s') \<Rightarrow> Some (Inl e, s')
      | (Inr ready, s') \<Rightarrow>
          if ready then Some (Inr (), s') else data_ready_loop c h (hal_delay h s'))"

section \<open>Measurement reads\<close>

text \<open>
  The results are \<^verbatim>\<open>float\<close>s. Each is an integer of at most 24 significant bits divided by a
  power of two, which binary32 represents exactly, so the quotient is the real number.
\<close>

record temperature_read_t =
  temperature :: real

record pressure_read_t =
  pressure :: real

record altitude_read_t =
  altitude :: real

text \<open>\<^verbatim>\<open>const int16_t temp_reading = uint16_t(temp_buffer[0]) << 8 | uint16_t(temp_buffer[4])\<close>\<close>

definition temp_reading :: "byte \<Rightarrow> byte \<Rightarrow> 16 word" where
  "temp_reading msb lsb = push_bit 8 (ucast msb) OR ucast lsb"

definition t_read ::
  "regmap \<Rightarrow> 'd hw \<Rightarrow> 'd world \<Rightarrow> ((error + temperature_read_t) \<times> 'd world) option" where
  "t_read c h =
     and_then_p (initiate_one_shot c h) (\<lambda>_.
     and_then_p (data_ready_loop c h) (\<lambda>_.
     returns (
       and_then (hal_write_then_read c h [OUT_T_MSB_R c] 2) (\<lambda>temp_buffer.
       and_then (array_at temp_buffer 0) (\<lambda>b0.
       and_then (array_at temp_buffer 4) (\<lambda>b4 s.
         (Inr \<lparr>temperature = real_of_int (sint (temp_reading b0 b4)) / 256\<rparr>, s)))))))"

text \<open>
  \<^verbatim>\<open>uint32_t(pres_buffer[0]) << 16 | uint32_t(pres_buffer[1]) << 8 | uint32_t(pres_buffer[2])\<close>
\<close>

definition pressure_reading :: "byte \<Rightarrow> byte \<Rightarrow> byte \<Rightarrow> 32 word" where
  "pressure_reading msb csb lsb = push_bit 16 (ucast msb) OR push_bit 8 (ucast csb) OR ucast lsb"

text \<open>The source calls \<^verbatim>\<open>setMode\<close>; the only mode setter of the class is \<^verbatim>\<open>set_mode\<close>.\<close>

definition p_read ::
  "regmap \<Rightarrow> 'd hw \<Rightarrow> 'd world \<Rightarrow> ((error + pressure_read_t) \<times> 'd world) option" where
  "p_read c h =
     and_then_p (returns (\<lambda>s. if sensor_mode s \<noteq> BAROMETER_M then set_mode c h BAROMETER_M s
                             else (Inr (), s))) (\<lambda>_.
     and_then_p (initiate_one_shot c h) (\<lambda>_.
     and_then_p (data_ready_loop c h) (\<lambda>_.
     returns (
       and_then (hal_write_then_read c h [OUT_P_MSB_R c] 3) (\<lambda>pres_buffer.
       and_then (array_at pres_buffer 0) (\<lambda>b0.
       and_then (array_at pres_buffer 1) (\<lambda>b1.
       and_then (array_at pres_buffer 2) (\<lambda>b2 s.
         (Inr \<lparr>pressure = real (unat (pressure_reading b0 b1 b2)) / 64\<rparr>, s)))))))))"

text \<open>
  \<^verbatim>\<open>const uint32_t alt_reading = uint32_t(buffer[0]) << 24 | uint32_t(buffer[1]) << 16 | uint32_t(buffer[2]) << 8\<close>.
  The source writes \<^verbatim>\<open>buffer\<close> for the array it has just filled, \<^verbatim>\<open>alt_buffer\<close>.
\<close>

definition alt_reading :: "byte \<Rightarrow> byte \<Rightarrow> byte \<Rightarrow> 32 word" where
  "alt_reading msb csb lsb =
     push_bit 24 (ucast msb) OR push_bit 16 (ucast csb) OR push_bit 8 (ucast lsb)"

definition a_read ::
  "regmap \<Rightarrow> 'd hw \<Rightarrow> 'd world \<Rightarrow> ((error + altitude_read_t) \<times> 'd world) option" where
  "a_read c h =
     and_then_p (returns (\<lambda>s. if sensor_mode s \<noteq> ALTIMETER_M then set_mode c h ALTIMETER_M s
                             else (Inr (), s))) (\<lambda>_.
     and_then_p (initiate_one_shot c h) (\<lambda>_.
     and_then_p (data_ready_loop c h) (\<lambda>_.
     returns (
       and_then (hal_write_then_read c h [OUT_P_MSB_R c] 3) (\<lambda>alt_buffer.
       and_then (array_at alt_buffer 0) (\<lambda>b0.
       and_then (array_at alt_buffer 1) (\<lambda>b1.
       and_then (array_at alt_buffer 2) (\<lambda>b2 s.
         (Inr \<lparr>altitude = real (unat (alt_reading b0 b1 b2)) / 65536\<rparr>, s)))))))))"

section \<open>Calibration setters\<close>

text \<open>
  \<^verbatim>\<open>uint16_t bar = sea_level_pressure / 2\<close>: the quotient is truncated towards zero and kept
  in 16 bits. The function has no range check and no error path: it always goes on to the
  write. Where the truncated value does not fit the 16 bits, the low 16 bits are kept, which
  is what the reference does (section 9: it "silently truncates out-of-range
  sea-level-pressure" input). The argument is a finite \<^verbatim>\<open>float\<close>, read as the real number it
  denotes; halving it is exact but for an underflow, whose truncation is 0 either way.
\<close>

definition trunc :: "real \<Rightarrow> int" where
  "trunc x = (if 0 \<le> x then \<lfloor>x\<rfloor> else \<lceil>x\<rceil>)"

definition float_to_uint16 :: "real \<Rightarrow> 16 word" where
  "float_to_uint16 x = word_of_int (trunc x)"

definition set_sea_pressure :: "regmap \<Rightarrow> 'd hw \<Rightarrow> real \<Rightarrow> 'd world \<Rightarrow> (error + unit) \<times> 'd world" where
  "set_sea_pressure c h sea_level_pressure =
     (let bar = float_to_uint16 (sea_level_pressure / 2)
      in hal_write c h [BAR_IN_MSB_R c, ucast (drop_bit 8 bar), ucast (bar AND 0xFF)])"

text \<open>\<^verbatim>\<open>offset\<close> is an \<^verbatim>\<open>int8_t\<close>; \<^verbatim>\<open>hal::byte(offset)\<close> keeps its bits.\<close>

definition set_altitude_offset :: "regmap \<Rightarrow> 'd hw \<Rightarrow> 8 word \<Rightarrow> 'd world \<Rightarrow> (error + unit) \<times> 'd world" where
  "set_altitude_offset c h offset = hal_write c h [OFF_H_R c, offset]"

section \<open>A scripted device for concrete runs\<close>

text \<open>
  The device state is the list of the answers still to come: each transaction takes the
  next one, an error code or the bytes read. With no answer left the bus fails with code 0.
  The register map is the one of the MPL3115A2 data sheet.
\<close>

type_synonym script = "(nat + byte list) list"

definition mock_hw :: "script hw" where
  "mock_hw =
     \<lparr>i2c_transaction = (\<lambda>addr out n d.
        case d of
          [] \<Rightarrow> (Inl 0, [])
        | r # rest \<Rightarrow> (map_sum id (\<lambda>bs i. if i < length bs then bs ! i else 0) r, rest)),
      clk_delay = id\<rparr>"

definition mpl3115a2 :: regmap where
  "mpl3115a2 =
     \<lparr>device_address = 0x60, WHOAMI_R = 0x0C, CTRL_REG1 = 0x26, CTRL_REG1_RST = 0x04,
      CTRL_REG1_OS128 = 0x38, CTRL_REG1_ALT = 0x80, CTRL_REG1_OST = 0x02,
      PT_DATA_CFG_R = 0x13, PT_DATA_CFG_TDEFE = 0x01, PT_DATA_CFG_PDEFE = 0x02,
      PT_DATA_CFG_DREM = 0x04, STATUS_R = 0x00, STATUS_PTDR = 0x08,
      OUT_T_MSB_R = 0x04, OUT_P_MSB_R = 0x01, BAR_IN_MSB_R = 0x14, OFF_H_R = 0x2D\<rparr>"

definition start :: "script \<Rightarrow> mpl311_mode_t \<Rightarrow> script world" where
  "start d m = \<lparr>device = d, trace = [], sensor_mode = m\<rparr>"

section \<open>Auxiliary notions for the statements\<close>

text \<open>
  The first two stages of \<open>p_read\<close>, named so that a statement can say where an execution
  stands: \<open>p_read_armed\<close> runs up to the data-ready polling loop, \<open>p_read_ready\<close> up to the
  read of the output registers.
\<close>

definition p_read_armed :: "regmap \<Rightarrow> 'd hw \<Rightarrow> 'd world \<Rightarrow> ((error + unit) \<times> 'd world) option" where
  "p_read_armed c h =
     and_then_p (returns (\<lambda>s. if sensor_mode s \<noteq> BAROMETER_M then set_mode c h BAROMETER_M s
                             else (Inr (), s))) (\<lambda>_.
     initiate_one_shot c h)"

definition p_read_ready :: "regmap \<Rightarrow> 'd hw \<Rightarrow> 'd world \<Rightarrow> ((error + unit) \<times> 'd world) option" where
  "p_read_ready c h = and_then_p (p_read_armed c h) (\<lambda>_. data_ready_loop c h)"

text \<open>
  What the device does while it has no data, told by the transport alone: \<open>n\<close> reads of
  the status register in a row succeed and show the data-ready bit clear, each followed by
  the delay. The result is the device state after them.
\<close>

fun unready_polls :: "regmap \<Rightarrow> 'd hw \<Rightarrow> nat \<Rightarrow> 'd \<Rightarrow> 'd option" where
  "unready_polls c h 0 d = Some d"
| "unready_polls c h (Suc n) d =
     (case i2c_transaction h (device_address c) [STATUS_R c] 1 d of
        (Inl code, d') \<Rightarrow> None
      | (Inr f, d') \<Rightarrow>
          if f 0 AND STATUS_PTDR c = 0 then unready_polls c h n (clk_delay h d') else None)"

text \<open>An event of a polling loop on register \<open>reg\<close>: a one-byte read that succeeded, or a delay.\<close>

fun is_poll :: "byte \<Rightarrow> bus_event \<Rightarrow> bool" where
  "is_poll reg (WriteThenRead p n r) = (p = [reg] \<and> n = 1 \<and> (case r of Inr [b] \<Rightarrow> True | _ \<Rightarrow> False))"
| "is_poll reg Delay = True"
| "is_poll reg (Write p r) = False"

text \<open>The read of the three pressure/altitude output registers, and bus writes.\<close>

fun reads_output :: "regmap \<Rightarrow> bus_event \<Rightarrow> bool" where
  "reads_output c (WriteThenRead p n r) = (p = [OUT_P_MSB_R c] \<and> n = 3)"
| "reads_output c (Write p r) = False"
| "reads_output c Delay = False"

fun is_write :: "bus_event \<Rightarrow> bool" where
  "is_write (Write p r) = True"
| "is_write (WriteThenRead p n r) = False"
| "is_write Delay = False"

text \<open>
  The events of a run in which the only bus write, if any, is the write that arms a one-shot
  measurement: it follows the poll of control register 1 whose byte it writes back with
  the one-shot bit set.
\<close>

definition arming_write_only :: "regmap \<Rightarrow> bus_event list \<Rightarrow> bool" where
  "arming_write_only c evs \<longleftrightarrow>
     filter is_write evs = [] \<or>
     (\<exists>pre b out post.
        evs = pre @ [WriteThenRead [CTRL_REG1 c] 1 (Inr [b]),
                     Write [CTRL_REG1 c, ost_set_reg b] out] @ post \<and>
        filter is_write pre = [] \<and> filter is_write post = [])"

section \<open>The mode-tracking invariant\<close>

text \<open>
  Bit 7 of control register 1 is the altitude-mode bit (\<^verbatim>\<open>1UL << 7\<close> in \<^verbatim>\<open>set_mode\<close>). An
  acknowledged two-byte write to the register carries a value for it; \<open>last_alt_written\<close>
  scans a trace for the last such value, starting from \<open>a\<close>.
\<close>

fun alt_bit_written :: "regmap \<Rightarrow> bus_event \<Rightarrow> bool option" where
  "alt_bit_written c (Write [reg, b] (Inr u)) = (if reg = CTRL_REG1 c then Some (bit b 7) else None)"
| "alt_bit_written c _ = None"

fun last_alt_written :: "regmap \<Rightarrow> bool option \<Rightarrow> bus_event list \<Rightarrow> bool option" where
  "last_alt_written c a [] = a"
| "last_alt_written c a (e # evs) =
     last_alt_written c (case alt_bit_written c e of Some x \<Rightarrow> Some x | None \<Rightarrow> a) evs"

text \<open>
  Absence of out-of-band writes, as far as the driver can observe it: every byte read back
  from control register 1 shows the altitude-mode bit the driver wrote last.
\<close>

fun alt_bit_read :: "regmap \<Rightarrow> bus_event \<Rightarrow> bool option" where
  "alt_bit_read c (WriteThenRead p n (Inr (b # bs))) = (if p = [CTRL_REG1 c] then Some (bit b 7) else None)"
| "alt_bit_read c _ = None"

fun readback_consistent :: "regmap \<Rightarrow> bool option \<Rightarrow> bus_event list \<Rightarrow> bool" where
  "readback_consistent c a [] = True"
| "readback_consistent c a (e # evs) =
     ((case (a, alt_bit_read c e) of (Some x, Some y) \<Rightarrow> x = y | _ \<Rightarrow> True) \<and>
      readback_consistent c (case alt_bit_written c e of Some x \<Rightarrow> Some x | None \<Rightarrow> a) evs)"

text \<open>The invariant: \<open>sensor_mode\<close> is the altitude-mode bit last written to the hardware.\<close>

definition mode_inv :: "regmap \<Rightarrow> 'd world \<Rightarrow> bool" where
  "mode_inv c s \<longleftrightarrow> last_alt_written c None (trace s) = Some (sensor_mode s = ALTIMETER_M)"

text \<open>
  What the invariant needs of the constants: \<^verbatim>\<open>CTRL_REG1_ALT\<close> is the bit that \<open>set_mode\<close>
  sets, and the two other registers written with one data byte are not control register 1.
\<close>

definition regmap_ok :: "regmap \<Rightarrow> bool" where
  "regmap_ok c \<longleftrightarrow>
     CTRL_REG1_ALT c = 0x80 \<and> PT_DATA_CFG_R c \<noteq> CTRL_REG1 c \<and> OFF_H_R c \<noteq> CTRL_REG1 c"

text \<open>The operations of the driver on a constructed object, and a call of any of them.\<close>

datatype api_op =
    ReadTemperature
  | ReadPressure
  | ReadAltitude
  | SetSeaPressure real
  | SetAltitudeOffset "8 word"
  | SetMode mpl311_mode_t

definition drop_value :: "(error + 'a) \<times> 's \<Rightarrow> (error + unit) \<times> 's" where
  "drop_value y = (case fst y of Inl e \<Rightarrow> Inl e | Inr v \<Rightarrow> Inr (), snd y)"

fun api_call :: "regmap \<Rightarrow> 'd hw \<Rightarrow> api_op \<Rightarrow> 'd world \<Rightarrow> ((error + unit) \<times> 'd world) option" where
  "api_call c h ReadTemperature s = map_option drop_value (t_read c h s)"
| "api_call c h ReadPressure s = map_option drop_value (p_read c h s)"
| "api_call c h ReadAltitude s = map_option drop_value (a_read c h s)"
| "api_call c h (SetSeaPressure p) s = Some (set_sea_pressure c h p s)"
| "api_call c h (SetAltitudeOffset offset) s = Some (set_altitude_offset c h offset s)"
| "api_call c h (SetMode m) s = Some (set_mode c h m s)"

text \<open>Outcomes after which C++ says nothing about the program.\<close>

fun undefined_behaviour :: "error + 'a \<Rightarrow> bool" where
  "undefined_behaviour (Inl IndexOutOfBounds) = True"
| "undefined_behaviour _ = False"


section \<open>Basic facts\<close>

subsection \<open>Sequencing\<close>

lemma and_then_cases:
  "and_then m f s = (r, s') \<Longrightarrow>
     (\<exists>e. m s = (Inl e, s') \<and> r = Inl e) \<or> (\<exists>x s1. m s = (Inr x, s1) \<and> f x s1 = (r, s'))"
  by (auto simp: and_then_def split: prod.splits sum.splits)

lemma and_then_p_cases:
  "and_then_p m f s = Some (r, s') \<Longrightarrow>
     (\<exists>e. m s = Some (Inl e, s') \<and> r = Inl e) \<or> (\<exists>x s1. m s = Some (Inr x, s1) \<and> f x s1 = Some (r, s'))"
  by (auto simp: and_then_p_def split: prod.splits sum.splits option.splits)

lemma and_then_p_assoc:
  "and_then_p (and_then_p m f) g = and_then_p m (\<lambda>x. and_then_p (f x) g)"
  by (rule ext) (simp add: and_then_p_def split: option.splits prod.splits sum.splits)

subsection \<open>Single transactions\<close>

lemma read1:
  "and_then (hal_write_then_read c h [reg] 1) (\<lambda>buf. array_at buf 0) s =
     (case i2c_transaction h (device_address c) [reg] 1 (device s) of
        (Inl code, d') \<Rightarrow>
          (Inl (BusError code), s\<lparr>device := d', trace := trace s @ [WriteThenRead [reg] 1 (Inl code)]\<rparr>)
      | (Inr f, d') \<Rightarrow>
          (Inr (f 0), s\<lparr>device := d', trace := trace s @ [WriteThenRead [reg] 1 (Inr [f 0])]\<rparr>))"
  by (simp add: and_then_def hal_write_then_read_def array_at_def split: prod.splits sum.splits)

lemma read1_Inr:
  assumes "and_then (hal_write_then_read c h [reg] 1) (\<lambda>buf. array_at buf 0) s = (Inr b, s')"
  shows "trace s' = trace s @ [WriteThenRead [reg] 1 (Inr [b])] \<and> sensor_mode s' = sensor_mode s"
  using assms unfolding read1 by (auto split: prod.splits sum.splits)

lemma read1_Inl:
  assumes "and_then (hal_write_then_read c h [reg] 1) (\<lambda>buf. array_at buf 0) s = (Inl e, s')"
  shows "\<exists>code. e = BusError code \<and> trace s' = trace s @ [WriteThenRead [reg] 1 (Inl code)] \<and>
           sensor_mode s' = sensor_mode s"
  using assms unfolding read1 by (auto split: prod.splits sum.splits)

lemma hal_delay_simps [simp]:
  "trace (hal_delay h s) = trace s @ [Delay]" "sensor_mode (hal_delay h s) = sensor_mode s"
  by (simp_all add: hal_delay_def)


lemma map_upt_2: "map f [0..<2] = [f 0, f 1]"
  by (simp add: numeral_2_eq_2 upt_rec)

lemma map_upt_3: "map f [0..<3] = [f 0, f 1, f 2]"
  by (simp add: numeral_3_eq_3 numeral_2_eq_2 upt_rec)

subsection \<open>The polling loops\<close>

lemma initiate_one_shot_loop_trace_aux:
  assumes "initiate_one_shot_loop c h s = Some y"
  shows "sensor_mode (snd y) = sensor_mode s \<and>
         (\<exists>polls. list_all (is_poll (CTRL_REG1 c)) polls \<and>
            (case fst y of
               Inr b \<Rightarrow> trace (snd y) = trace s @ polls @ [WriteThenRead [CTRL_REG1 c] 1 (Inr [b])]
             | Inl e \<Rightarrow> \<exists>code. e = BusError code \<and>
                          trace (snd y) = trace s @ polls @ [WriteThenRead [CTRL_REG1 c] 1 (Inl code)]))"
  using assms
proof (induction rule: initiate_one_shot_loop.raw_induct[rotated 1, consumes 1])
  case (1 loop c h s y)
  obtain r s1 where poll:
    "and_then (hal_write_then_read c h [CTRL_REG1 c] 1) (\<lambda>ctrl_buffer. array_at ctrl_buffer 0) s = (r, s1)"
    by (cases "and_then (hal_write_then_read c h [CTRL_REG1 c] 1) (\<lambda>ctrl_buffer. array_at ctrl_buffer 0) s")
  show ?case
  proof (cases r)
    case (Inl e)
    with poll 1(2) have y: "y = (Inl e, s1)" by simp
    from read1_Inl[OF poll[unfolded Inl]] show ?thesis
      unfolding y by (intro conjI exI[of _ "[]"]) auto
  next
    case (Inr b)
    note b = read1_Inr[OF poll[unfolded Inr]]
    show ?thesis
    proof (cases "b AND CTRL_REG1_OST c = 0")
      case True
      with poll Inr 1(2) have y: "y = (Inr b, s1)" by simp
      from b show ?thesis unfolding y by (intro conjI exI[of _ "[]"]) auto
    next
      case False
      with poll Inr 1(2) have "loop c h (hal_delay h s1) = Some y" by simp
      from 1(1)[OF this] obtain polls where
        m: "sensor_mode (snd y) = sensor_mode s1" and p: "list_all (is_poll (CTRL_REG1 c)) polls" and
        t: "(case fst y of
               Inr b \<Rightarrow> trace (snd y) = trace (hal_delay h s1) @ polls @ [WriteThenRead [CTRL_REG1 c] 1 (Inr [b])]
             | Inl e \<Rightarrow> \<exists>code. e = BusError code \<and>
                          trace (snd y) = trace (hal_delay h s1) @ polls @ [WriteThenRead [CTRL_REG1 c] 1 (Inl code)])"
        by auto
      let ?polls = "WriteThenRead [CTRL_REG1 c] 1 (Inr [b]) # Delay # polls"
      have "list_all (is_poll (CTRL_REG1 c)) ?polls" using p by simp
      moreover have "(case fst y of
               Inr b \<Rightarrow> trace (snd y) = trace s @ ?polls @ [WriteThenRead [CTRL_REG1 c] 1 (Inr [b])]
             | Inl e \<Rightarrow> \<exists>code. e = BusError code \<and>
                          trace (snd y) = trace s @ ?polls @ [WriteThenRead [CTRL_REG1 c] 1 (Inl code)])"
        using t b by (auto split: sum.splits)
      ultimately show ?thesis using m b by (intro conjI exI[of _ ?polls]) simp_all
    qed
  qed
qed

lemma initiate_one_shot_loop_Inr:
  assumes "initiate_one_shot_loop c h s = Some (Inr b, s')"
  shows "\<exists>polls. list_all (is_poll (CTRL_REG1 c)) polls \<and>
           trace s' = trace s @ polls @ [WriteThenRead [CTRL_REG1 c] 1 (Inr [b])]"
    and "sensor_mode s' = sensor_mode s"
  using initiate_one_shot_loop_trace_aux[OF assms] by simp_all

lemma initiate_one_shot_loop_Inl:
  assumes "initiate_one_shot_loop c h s = Some (Inl e, s')"
  shows "\<exists>polls code. list_all (is_poll (CTRL_REG1 c)) polls \<and> e = BusError code \<and>
           trace s' = trace s @ polls @ [WriteThenRead [CTRL_REG1 c] 1 (Inl code)]"
    and "sensor_mode s' = sensor_mode s"
  using initiate_one_shot_loop_trace_aux[OF assms] by auto

lemma check_data_ready_flag_Inr:
  assumes "check_data_ready_flag c h s = (Inr ready, s')"
  shows "\<exists>b. trace s' = trace s @ [WriteThenRead [STATUS_R c] 1 (Inr [b])] \<and>
           ready = (b AND STATUS_PTDR c \<noteq> 0)"
    and "sensor_mode s' = sensor_mode s"
  using assms
  by (auto simp: check_data_ready_flag_def and_then_def hal_write_then_read_def array_at_def
      split: prod.splits sum.splits)

lemma check_data_ready_flag_Inl:
  assumes "check_data_ready_flag c h s = (Inl e, s')"
  shows "\<exists>code. e = BusError code \<and> trace s' = trace s @ [WriteThenRead [STATUS_R c] 1 (Inl code)]"
    and "sensor_mode s' = sensor_mode s"
  using assms
  by (auto simp: check_data_ready_flag_def and_then_def hal_write_then_read_def array_at_def
      split: prod.splits sum.splits)

lemma data_ready_loop_trace_aux:
  assumes "data_ready_loop c h s = Some y"
  shows "sensor_mode (snd y) = sensor_mode s \<and>
         (\<exists>polls. list_all (is_poll (STATUS_R c)) polls \<and>
            (case fst y of
               Inr _ \<Rightarrow> \<exists>b. trace (snd y) = trace s @ polls @ [WriteThenRead [STATUS_R c] 1 (Inr [b])]
             | Inl e \<Rightarrow> \<exists>code. e = BusError code \<and>
                          trace (snd y) = trace s @ polls @ [WriteThenRead [STATUS_R c] 1 (Inl code)]))"
  using assms
proof (induction rule: data_ready_loop.raw_induct[rotated 1, consumes 1])
  case (1 loop c h s y)
  obtain r s1 where poll: "check_data_ready_flag c h s = (r, s1)"
    by (cases "check_data_ready_flag c h s")
  show ?case
  proof (cases r)
    case (Inl e)
    with poll 1(2) have y: "y = (Inl e, s1)" by simp
    from check_data_ready_flag_Inl[OF poll[unfolded Inl]] show ?thesis
      unfolding y by (intro conjI exI[of _ "[]"]) auto
  next
    case (Inr ready)
    note b = check_data_ready_flag_Inr[OF poll[unfolded Inr]]
    show ?thesis
    proof (cases ready)
      case True
      with poll Inr 1(2) have y: "y = (Inr (), s1)" by simp
      from b show ?thesis unfolding y by (intro conjI exI[of _ "[]"]) auto
    next
      case False
      with poll Inr 1(2) have "loop c h (hal_delay h s1) = Some y" by simp
      from 1(1)[OF this] obtain polls where
        m: "sensor_mode (snd y) = sensor_mode s1" and p: "list_all (is_poll (STATUS_R c)) polls" and
        t: "(case fst y of
               Inr _ \<Rightarrow> \<exists>b. trace (snd y) = trace (hal_delay h s1) @ polls @ [WriteThenRead [STATUS_R c] 1 (Inr [b])]
             | Inl e \<Rightarrow> \<exists>code. e = BusError code \<and>
                          trace (snd y) = trace (hal_delay h s1) @ polls @ [WriteThenRead [STATUS_R c] 1 (Inl code)])"
        by auto
      from b obtain b0 where b0: "trace s1 = trace s @ [WriteThenRead [STATUS_R c] 1 (Inr [b0])]"
        by blast
      let ?polls = "WriteThenRead [STATUS_R c] 1 (Inr [b0]) # Delay # polls"
      have "list_all (is_poll (STATUS_R c)) ?polls" using p by simp
      moreover have "(case fst y of
               Inr _ \<Rightarrow> \<exists>b. trace (snd y) = trace s @ ?polls @ [WriteThenRead [STATUS_R c] 1 (Inr [b])]
             | Inl e \<Rightarrow> \<exists>code. e = BusError code \<and>
                          trace (snd y) = trace s @ ?polls @ [WriteThenRead [STATUS_R c] 1 (Inl code)])"
        using t b0 by (auto split: sum.splits)
      ultimately show ?thesis using m b by (intro conjI exI[of _ ?polls]) simp_all
    qed
  qed
qed

lemma data_ready_loop_Inr:
  assumes "data_ready_loop c h s = Some (Inr u, s')"
  shows "\<exists>polls b. list_all (is_poll (STATUS_R c)) polls \<and>
           trace s' = trace s @ polls @ [WriteThenRead [STATUS_R c] 1 (Inr [b])]"
    and "sensor_mode s' = sensor_mode s"
  using data_ready_loop_trace_aux[OF assms] by auto

lemma data_ready_loop_Inl:
  assumes "data_ready_loop c h s = Some (Inl e, s')"
  shows "\<exists>polls code. list_all (is_poll (STATUS_R c)) polls \<and> e = BusError code \<and>
           trace s' = trace s @ polls @ [WriteThenRead [STATUS_R c] 1 (Inl code)]"
    and "sensor_mode s' = sensor_mode s"
  using data_ready_loop_trace_aux[OF assms] by auto


subsection \<open>Unfolding a loop by one poll\<close>

text \<open>Each loop as one conditional step, in a form the simplifier can run on a concrete device.\<close>

lemma initiate_one_shot_loop_unfold:
  "initiate_one_shot_loop c h s =
     (if isl (fst (and_then (hal_write_then_read c h [CTRL_REG1 c] 1) (\<lambda>ctrl_buffer. array_at ctrl_buffer 0) s))
      then Some (Inl (projl (fst (and_then (hal_write_then_read c h [CTRL_REG1 c] 1) (\<lambda>ctrl_buffer. array_at ctrl_buffer 0) s))),
                 snd (and_then (hal_write_then_read c h [CTRL_REG1 c] 1) (\<lambda>ctrl_buffer. array_at ctrl_buffer 0) s))
      else if projr (fst (and_then (hal_write_then_read c h [CTRL_REG1 c] 1) (\<lambda>ctrl_buffer. array_at ctrl_buffer 0) s)) AND CTRL_REG1_OST c = 0
      then Some (Inr (projr (fst (and_then (hal_write_then_read c h [CTRL_REG1 c] 1) (\<lambda>ctrl_buffer. array_at ctrl_buffer 0) s))),
                 snd (and_then (hal_write_then_read c h [CTRL_REG1 c] 1) (\<lambda>ctrl_buffer. array_at ctrl_buffer 0) s))
      else initiate_one_shot_loop c h (hal_delay h (snd (and_then (hal_write_then_read c h [CTRL_REG1 c] 1) (\<lambda>ctrl_buffer. array_at ctrl_buffer 0) s))))"
  by (subst initiate_one_shot_loop.simps,
      cases "and_then (hal_write_then_read c h [CTRL_REG1 c] 1) (\<lambda>ctrl_buffer. array_at ctrl_buffer 0) s")
     (auto split: sum.splits)

lemma begin_reset_loop_unfold:
  "begin_reset_loop c h s =
     (if isl (fst (and_then (hal_write_then_read c h [CTRL_REG1 c] 1) (\<lambda>ctrl_buffer. array_at ctrl_buffer 0) s))
      then Some (Inl (projl (fst (and_then (hal_write_then_read c h [CTRL_REG1 c] 1) (\<lambda>ctrl_buffer. array_at ctrl_buffer 0) s))),
                 snd (and_then (hal_write_then_read c h [CTRL_REG1 c] 1) (\<lambda>ctrl_buffer. array_at ctrl_buffer 0) s))
      else if projr (fst (and_then (hal_write_then_read c h [CTRL_REG1 c] 1) (\<lambda>ctrl_buffer. array_at ctrl_buffer 0) s)) AND CTRL_REG1_RST c = 0
      then Some (Inr (), snd (and_then (hal_write_then_read c h [CTRL_REG1 c] 1) (\<lambda>ctrl_buffer. array_at ctrl_buffer 0) s))
      else begin_reset_loop c h (hal_delay h (snd (and_then (hal_write_then_read c h [CTRL_REG1 c] 1) (\<lambda>ctrl_buffer. array_at ctrl_buffer 0) s))))"
  by (subst begin_reset_loop.simps,
      cases "and_then (hal_write_then_read c h [CTRL_REG1 c] 1) (\<lambda>ctrl_buffer. array_at ctrl_buffer 0) s")
     (auto split: sum.splits)

lemma data_ready_loop_unfold:
  "data_ready_loop c h s =
     (if isl (fst (check_data_ready_flag c h s))
      then Some (Inl (projl (fst (check_data_ready_flag c h s))), snd (check_data_ready_flag c h s))
      else if projr (fst (check_data_ready_flag c h s))
      then Some (Inr (), snd (check_data_ready_flag c h s))
      else data_ready_loop c h (hal_delay h (snd (check_data_ready_flag c h s))))"
  by (subst data_ready_loop.simps, cases "check_data_ready_flag c h s") (auto split: sum.splits)

lemmas run_defs = map_upt_2 map_upt_3 and_then_def and_then_p_def returns_def hal_write_then_read_def hal_write_def
  hal_delay_def array_at_def mock_hw_def mpl3115a2_def start_def check_data_ready_flag_def
  initiate_one_shot_def ost_set_reg_def
  initiate_one_shot_loop_unfold begin_reset_loop_unfold data_ready_loop_unfold

subsection \<open>Stages of the pressure read\<close>

lemma p_read_split:
  "p_read c h =
     and_then_p (p_read_ready c h) (\<lambda>_.
     returns (
       and_then (hal_write_then_read c h [OUT_P_MSB_R c] 3) (\<lambda>pres_buffer.
       and_then (array_at pres_buffer 0) (\<lambda>b0.
       and_then (array_at pres_buffer 1) (\<lambda>b1.
       and_then (array_at pres_buffer 2) (\<lambda>b2 s.
         (Inr \<lparr>pressure = real (unat (pressure_reading b0 b1 b2)) / 64\<rparr>, s)))))))"
  by (simp add: p_read_def p_read_ready_def p_read_armed_def and_then_p_assoc)

lemma p_read_split_armed:
  "p_read c h =
     and_then_p (p_read_armed c h) (\<lambda>_.
     and_then_p (data_ready_loop c h) (\<lambda>_.
     returns (
       and_then (hal_write_then_read c h [OUT_P_MSB_R c] 3) (\<lambda>pres_buffer.
       and_then (array_at pres_buffer 0) (\<lambda>b0.
       and_then (array_at pres_buffer 1) (\<lambda>b1.
       and_then (array_at pres_buffer 2) (\<lambda>b2 s.
         (Inr \<lparr>pressure = real (unat (pressure_reading b0 b1 b2)) / 64\<rparr>, s))))))))"
  by (simp add: p_read_def p_read_armed_def and_then_p_assoc)

lemma unat_pressure_reading:
  "unat (pressure_reading msb csb lsb) = unat msb * 65536 + unat csb * 256 + unat lsb"
proof -
  have 1: "push_bit 8 (ucast csb :: 32 word) OR ucast lsb = push_bit 8 (ucast csb) + ucast lsb"
    by (rule disjunctive_add[symmetric]) (auto simp: bit_simps dest: bit_imp_le_length)
  have 2: "push_bit 16 (ucast msb :: 32 word) OR (push_bit 8 (ucast csb) + ucast lsb) =
           push_bit 16 (ucast msb) + (push_bit 8 (ucast csb) + ucast lsb)"
    by (rule disjunctive_add[symmetric]) (auto simp: bit_simps 1[symmetric] dest: bit_imp_le_length)
  have b: "unat msb < 256" "unat csb < 256" "unat lsb < 256"
    using unsigned_less[of msb, where ?'a = nat] unsigned_less[of csb, where ?'a = nat]
      unsigned_less[of lsb, where ?'a = nat] by simp_all
  have "pressure_reading msb csb lsb = push_bit 16 (ucast msb) + (push_bit 8 (ucast csb) + ucast lsb)"
    by (simp add: pressure_reading_def 1 2)
  then have "unat (pressure_reading msb csb lsb) =
      (unat msb * 65536 + (unat csb * 256 + unat lsb)) mod 2 ^ 32"
    by (simp add: unat_word_ariths push_bit_eq_mult unsigned_ucast_eq take_bit_eq_mod mod_simps mult.commute)
  also have "\<dots> = unat msb * 65536 + (unat csb * 256 + unat lsb)"
    using b by simp
  finally show ?thesis by simp
qed

subsection \<open>The byte written by a mode switch\<close>

lemma bit_128_iff: "bit (128 :: 'a::semiring_bit_operations) n \<longleftrightarrow> possible_bit TYPE('a) n \<and> n = 7"
proof -
  have "(128 :: 'a) = 2 ^ 7" by simp
  then show ?thesis by (simp only: bit_exp_iff)
qed

lemma bit_mode_set_reg:
  "bit (mode_set_reg m b) i \<longleftrightarrow> (if i = 7 then m = ALTIMETER_M else bit b i)"
  by (cases m) (auto simp: mode_set_reg_def bit_simps bit_128_iff dest: bit_imp_le_length)

lemma bit_127_iff: "bit (127 :: byte) n \<longleftrightarrow> n < 7"
proof -
  have "(127 :: byte) = mask 7" by (simp add: mask_eq_exp_minus_1)
  then show ?thesis by (simp only: bit_mask_iff) auto
qed

lemma mode_set_reg_low_bits: "mode_set_reg m b AND 0x7F = b AND 0x7F"
  by (rule bit_word_eqI) (auto simp: bit_and_iff bit_mode_set_reg bit_127_iff)

subsection \<open>Sea-level pressure bytes\<close>





subsection \<open>Reading three output bytes\<close>

lemma out3:
  assumes "i2c_transaction h (device_address c) [reg] 3 (device s) = (Inr f, d')"
  shows "and_then (hal_write_then_read c h [reg] 3) (\<lambda>buf.
         and_then (array_at buf 0) (\<lambda>b0.
         and_then (array_at buf 1) (\<lambda>b1.
         and_then (array_at buf 2) (\<lambda>b2 s. (Inr (k b0 b1 b2), s))))) s =
         (Inr (k (f 0) (f 1) (f 2)),
          s\<lparr>device := d', trace := trace s @ [WriteThenRead [reg] 3 (Inr [f 0, f 1, f 2])]\<rparr>)"
  using assms by (simp add: and_then_def hal_write_then_read_def array_at_def map_upt_3)

subsection \<open>The temperature buffer\<close>

text \<open>The reading the two bytes 0x1A, 0x00 stand for, had both been taken from the buffer.\<close>

lemma temp_reading_1A_00: "real_of_int (sint (temp_reading 0x1A 0x00)) / 256 = 26"
  by (simp add: temp_reading_def)

lemma temp_buffer_index_4:
  "and_then (hal_write_then_read c h [reg] 2) (\<lambda>temp_buffer.
   and_then (array_at temp_buffer 0) (\<lambda>b0.
   and_then (array_at temp_buffer 4) (k b0))) s \<noteq> (Inr v, s')"
  by (auto simp: and_then_def hal_write_then_read_def array_at_def split: prod.splits sum.splits)

subsection \<open>Sign of the altitude\<close>

text \<open>The packed bytes 0x80, 0x00, 0x00 read as a signed and as an unsigned 32-bit value.\<close>

lemma alt_reading_80_00_00:
  "real_of_int (sint (alt_reading 0x80 0x00 0x00)) / 65536 = - 32768"
  "real (unat (alt_reading 0x80 0x00 0x00)) / 65536 = 32768"
  by (simp_all add: alt_reading_def)

lemma a_read_nonnegative:
  assumes "a_read c h s = Some (Inr v, s')"
  shows "0 \<le> altitude v"
  using assms unfolding a_read_def
  by (auto dest!: and_then_p_cases and_then_cases simp: returns_def simp del: of_nat_unat)

subsection \<open>The events of each operation\<close>

lemma is_poll_not_output: "is_poll reg e \<Longrightarrow> \<not> reads_output c e"
  by (cases e) auto

lemma polls_no_output: "list_all (is_poll reg) polls \<Longrightarrow> list_all (\<lambda>e. \<not> reads_output c e) polls"
  by (induction polls) (auto simp: is_poll_not_output)

lemma polls_no_write: "list_all (is_poll reg) polls \<Longrightarrow> filter is_write polls = []"
proof (induction polls)
  case Nil
  then show ?case by simp
next
  case (Cons e polls)
  then show ?case by (cases e) auto
qed

lemma hal_write_cases:
  assumes "hal_write c h payload s = (r, s')"
  shows "sensor_mode s' = sensor_mode s \<and>
         ((\<exists>code. r = Inl (BusError code) \<and> trace s' = trace s @ [Write payload (Inl code)]) \<or>
          (r = Inr () \<and> trace s' = trace s @ [Write payload (Inr ())]))"
  using assms by (auto simp: hal_write_def split: prod.splits sum.splits)

lemma set_mode_cases:
  assumes "set_mode c h m s = (r, s')"
  shows "(\<exists>code. r = Inl (BusError code) \<and> sensor_mode s' = sensor_mode s \<and>
            trace s' = trace s @ [WriteThenRead [CTRL_REG1 c] 1 (Inl code)]) \<or>
         (\<exists>b code. r = Inl (BusError code) \<and> sensor_mode s' = sensor_mode s \<and>
            trace s' = trace s @ [WriteThenRead [CTRL_REG1 c] 1 (Inr [b]),
                                  Write [CTRL_REG1 c, mode_set_reg m b] (Inl code)]) \<or>
         (\<exists>b. r = Inr () \<and> sensor_mode s' = m \<and>
            trace s' = trace s @ [WriteThenRead [CTRL_REG1 c] 1 (Inr [b]),
                                  Write [CTRL_REG1 c, mode_set_reg m b] (Inr ())])"
  using assms
  by (auto simp: set_mode_def and_then_def hal_write_then_read_def array_at_def hal_write_def
      split: prod.splits sum.splits)

lemma initiate_one_shot_cases:
  assumes "initiate_one_shot c h s = Some (r, s')"
  shows "sensor_mode s' = sensor_mode s \<and>
         (\<exists>polls. list_all (is_poll (CTRL_REG1 c)) polls \<and>
            ((\<exists>code. r = Inl (BusError code) \<and>
                trace s' = trace s @ polls @ [WriteThenRead [CTRL_REG1 c] 1 (Inl code)]) \<or>
             (\<exists>b code. r = Inl (BusError code) \<and>
                trace s' = trace s @ polls @ [WriteThenRead [CTRL_REG1 c] 1 (Inr [b]),
                                              Write [CTRL_REG1 c, ost_set_reg b] (Inl code)]) \<or>
             (\<exists>b. r = Inr () \<and>
                trace s' = trace s @ polls @ [WriteThenRead [CTRL_REG1 c] 1 (Inr [b]),
                                              Write [CTRL_REG1 c, ost_set_reg b] (Inr ())])))"
proof -
  from assms consider
    (fail) e where "initiate_one_shot_loop c h s = Some (Inl e, s')" "r = Inl e"
  | (ok) b s1 where "initiate_one_shot_loop c h s = Some (Inr b, s1)"
      "hal_write c h [CTRL_REG1 c, ost_set_reg b] s1 = (r, s')"
    unfolding initiate_one_shot_def by (auto dest!: and_then_p_cases simp: returns_def)
  then show ?thesis
  proof cases
    case fail
    from initiate_one_shot_loop_Inl[OF fail(1)] fail(2) show ?thesis by blast
  next
    case ok
    from initiate_one_shot_loop_Inr[OF ok(1)] obtain polls where
      p: "list_all (is_poll (CTRL_REG1 c)) polls"
        "trace s1 = trace s @ polls @ [WriteThenRead [CTRL_REG1 c] 1 (Inr [b])]"
        "sensor_mode s1 = sensor_mode s" by blast
    from hal_write_cases[OF ok(2)] p show ?thesis
      by (intro conjI exI[of _ polls]) auto
  qed
qed


lemma p_read_armed_trace:
  assumes "p_read_armed c h s = Some (Inr (), s1)"
  shows "\<exists>evs. trace s1 = trace s @ evs \<and> list_all (\<lambda>ev. \<not> reads_output c ev) evs"
proof -
  from assms obtain s0 where
    m: "(if sensor_mode s \<noteq> BAROMETER_M then set_mode c h BAROMETER_M s else (Inr (), s)) = (Inr (), s0)"
    and o: "initiate_one_shot c h s0 = Some (Inr (), s1)"
    unfolding p_read_armed_def by (auto dest!: and_then_p_cases simp: returns_def)
  have "\<exists>evs0. trace s0 = trace s @ evs0 \<and> list_all (\<lambda>ev. \<not> reads_output c ev) evs0"
  proof (cases "sensor_mode s \<noteq> BAROMETER_M")
    case True
    with m have "set_mode c h BAROMETER_M s = (Inr (), s0)" by simp
    from set_mode_cases[OF this] show ?thesis by auto
  next
    case False
    with m show ?thesis by simp
  qed
  then obtain evs0 where e0: "trace s0 = trace s @ evs0" "list_all (\<lambda>ev. \<not> reads_output c ev) evs0"
    by blast
  from initiate_one_shot_cases[OF o] obtain polls b where
    p: "list_all (is_poll (CTRL_REG1 c)) polls"
       "trace s1 = trace s0 @ polls @ [WriteThenRead [CTRL_REG1 c] 1 (Inr [b]),
                                      Write [CTRL_REG1 c, ost_set_reg b] (Inr ())]"
    by auto
  show ?thesis
    using e0 p polls_no_output[OF p(1), of c]
    by (intro exI[of _ "evs0 @ polls @ [WriteThenRead [CTRL_REG1 c] 1 (Inr [b]),
                                      Write [CTRL_REG1 c, ost_set_reg b] (Inr ())]"]) simp
qed

lemma data_ready_loop_fail:
  "check_data_ready_flag c h s = (Inl e, s') \<Longrightarrow> data_ready_loop c h s = Some (Inl e, s')"
  by (subst data_ready_loop.simps) simp

lemma data_ready_loop_again:
  "check_data_ready_flag c h s = (Inr False, s') \<Longrightarrow>
   data_ready_loop c h s = data_ready_loop c h (hal_delay h s')"
  by (subst data_ready_loop.simps) simp

text \<open>The loop on a device that has no data for \<open>n\<close> polls and then fails the status read.\<close>

lemma data_ready_loop_transport_failure:
  assumes "unready_polls c h n (device s1) = Some d2"
      and "i2c_transaction h (device_address c) [STATUS_R c] 1 d2 = (Inl code, d3)"
  shows "\<exists>s2. data_ready_loop c h s1 = Some (Inl (BusError code), s2) \<and> device s2 = d3"
  using assms
proof (induction n arbitrary: s1)
  case 0
  then have "check_data_ready_flag c h s1 =
      (Inl (BusError code), s1\<lparr>device := d3, trace := trace s1 @ [WriteThenRead [STATUS_R c] 1 (Inl code)]\<rparr>)"
    by (simp add: check_data_ready_flag_def and_then_def hal_write_then_read_def)
  from data_ready_loop_fail[OF this] show ?case by simp
next
  case (Suc n)
  from Suc.prems(1) obtain f d' where
    tx: "i2c_transaction h (device_address c) [STATUS_R c] 1 (device s1) = (Inr f, d')"
    and nd: "f 0 AND STATUS_PTDR c = 0"
    and rest: "unready_polls c h n (clk_delay h d') = Some d2"
    by (auto split: prod.splits sum.splits if_splits)
  let ?s = "s1\<lparr>device := d', trace := trace s1 @ [WriteThenRead [STATUS_R c] 1 (Inr [f 0])]\<rparr>"
  have "check_data_ready_flag c h s1 = (Inr False, ?s)"
    using tx nd by (simp add: check_data_ready_flag_def and_then_def hal_write_then_read_def array_at_def)
  from data_ready_loop_again[OF this]
  have step: "data_ready_loop c h s1 = data_ready_loop c h (hal_delay h ?s)" .
  have "device (hal_delay h ?s) = clk_delay h d'" by (simp add: hal_delay_def)
  with rest have "unready_polls c h n (device (hal_delay h ?s)) = Some d2" by simp
  from Suc.IH[OF this Suc.prems(2)] step show ?case by simp
qed

subsection \<open>Arming, polling and the final read\<close>

lemma bit_ost_set_reg: "bit (ost_set_reg b) i \<longleftrightarrow> i = 1 \<or> bit b i"
  by (auto simp: ost_set_reg_def bit_simps dest: bit_imp_le_length)

lemma arming_write_only_none: "filter is_write evs = [] \<Longrightarrow> arming_write_only c evs"
  by (simp add: arming_write_only_def)

lemma arming_write_only_one:
  "filter is_write pre = [] \<Longrightarrow> filter is_write post = [] \<Longrightarrow>
   arming_write_only c (pre @ [WriteThenRead [CTRL_REG1 c] 1 (Inr [b]),
                               Write [CTRL_REG1 c, ost_set_reg b] out] @ post)"
  unfolding arming_write_only_def by blast

text \<open>
  What follows the mode switch in \<open>p_read\<close> and \<open>a_read\<close>, and is all of \<open>t_read\<close>: arm a
  one-shot measurement, poll for the data, then one last transaction \<open>fin\<close>.
\<close>

lemma one_shot_poll_then:
  assumes run: "and_then_p (initiate_one_shot c h) (\<lambda>_.
                and_then_p (data_ready_loop c h) (\<lambda>_. returns fin)) s = Some (r, s')"
      and fin: "\<And>s r s'. fin s = (r, s') \<Longrightarrow>
                  sensor_mode s' = sensor_mode s \<and> (\<exists>p n out. trace s' = trace s @ [WriteThenRead p n out])"
  shows "sensor_mode s' = sensor_mode s \<and>
         (\<exists>evs. trace s' = trace s @ evs \<and> arming_write_only c evs)"
proof -
  from run consider
    (a) e where "initiate_one_shot c h s = Some (Inl e, s')" "r = Inl e"
  | (b) s1 e where "initiate_one_shot c h s = Some (Inr (), s1)" "data_ready_loop c h s1 = Some (Inl e, s')"
  | (c) s1 s2 where "initiate_one_shot c h s = Some (Inr (), s1)" "data_ready_loop c h s1 = Some (Inr (), s2)"
      "fin s2 = (r, s')"
    by (auto dest!: and_then_p_cases simp: returns_def)
  then show ?thesis
  proof cases
    case a
    from initiate_one_shot_cases[OF a(1)] obtain polls where
      p: "list_all (is_poll (CTRL_REG1 c)) polls" and m: "sensor_mode s' = sensor_mode s" and
      t: "(\<exists>code. trace s' = trace s @ polls @ [WriteThenRead [CTRL_REG1 c] 1 (Inl code)]) \<or>
          (\<exists>b code. trace s' = trace s @ polls @ [WriteThenRead [CTRL_REG1 c] 1 (Inr [b]),
                                              Write [CTRL_REG1 c, ost_set_reg b] (Inl code)])"
      by auto
    from t show ?thesis
    proof
      assume "\<exists>code. trace s' = trace s @ polls @ [WriteThenRead [CTRL_REG1 c] 1 (Inl code)]"
      then obtain code where t': "trace s' = trace s @ polls @ [WriteThenRead [CTRL_REG1 c] 1 (Inl code)]" ..
      have "arming_write_only c (polls @ [WriteThenRead [CTRL_REG1 c] 1 (Inl code)])"
        by (rule arming_write_only_none) (simp add: polls_no_write[OF p])
      with m t' show ?thesis by blast
    next
      assume "\<exists>b code. trace s' = trace s @ polls @ [WriteThenRead [CTRL_REG1 c] 1 (Inr [b]),
                                              Write [CTRL_REG1 c, ost_set_reg b] (Inl code)]"
      then obtain b code where t': "trace s' = trace s @ polls @ [WriteThenRead [CTRL_REG1 c] 1 (Inr [b]),
                                              Write [CTRL_REG1 c, ost_set_reg b] (Inl code)] @ []" by auto
      have "arming_write_only c (polls @ [WriteThenRead [CTRL_REG1 c] 1 (Inr [b]),
                                              Write [CTRL_REG1 c, ost_set_reg b] (Inl code)] @ [])"
        by (rule arming_write_only_one) (simp_all add: polls_no_write[OF p])
      with m t' show ?thesis by blast
    qed
  next
    case b
    from initiate_one_shot_cases[OF b(1)] obtain polls b0 where
      p: "list_all (is_poll (CTRL_REG1 c)) polls" and m: "sensor_mode s1 = sensor_mode s" and
      t: "trace s1 = trace s @ polls @ [WriteThenRead [CTRL_REG1 c] 1 (Inr [b0]),
                                              Write [CTRL_REG1 c, ost_set_reg b0] (Inr ())]"
      by auto
    from data_ready_loop_Inl[OF b(2)] obtain polls2 code where
      p2: "list_all (is_poll (STATUS_R c)) polls2" and m2: "sensor_mode s' = sensor_mode s1" and
      t2: "trace s' = trace s1 @ polls2 @ [WriteThenRead [STATUS_R c] 1 (Inl code)]"
      by blast
    let ?post = "polls2 @ [WriteThenRead [STATUS_R c] 1 (Inl code)]"
    have "arming_write_only c (polls @ [WriteThenRead [CTRL_REG1 c] 1 (Inr [b0]),
                                        Write [CTRL_REG1 c, ost_set_reg b0] (Inr ())] @ ?post)"
      by (rule arming_write_only_one) (simp_all add: polls_no_write[OF p] polls_no_write[OF p2])
    moreover have "trace s' = trace s @ polls @ [WriteThenRead [CTRL_REG1 c] 1 (Inr [b0]),
                                        Write [CTRL_REG1 c, ost_set_reg b0] (Inr ())] @ ?post"
      using t t2 by simp
    ultimately show ?thesis using m m2 by (metis (no_types))
  next
    case c
    from initiate_one_shot_cases[OF c(1)] obtain polls b0 where
      p: "list_all (is_poll (CTRL_REG1 c)) polls" and m: "sensor_mode s1 = sensor_mode s" and
      t: "trace s1 = trace s @ polls @ [WriteThenRead [CTRL_REG1 c] 1 (Inr [b0]),
                                              Write [CTRL_REG1 c, ost_set_reg b0] (Inr ())]"
      by auto
    from data_ready_loop_Inr[OF c(2)] obtain polls2 b2 where
      p2: "list_all (is_poll (STATUS_R c)) polls2" and m2: "sensor_mode s2 = sensor_mode s1" and
      t2: "trace s2 = trace s1 @ polls2 @ [WriteThenRead [STATUS_R c] 1 (Inr [b2])]"
      by blast
    from fin[OF c(3)] obtain q n out where
      m3: "sensor_mode s' = sensor_mode s2" and t3: "trace s' = trace s2 @ [WriteThenRead q n out]"
      by blast
    let ?post = "polls2 @ [WriteThenRead [STATUS_R c] 1 (Inr [b2]), WriteThenRead q n out]"
    have "arming_write_only c (polls @ [WriteThenRead [CTRL_REG1 c] 1 (Inr [b0]),
                                        Write [CTRL_REG1 c, ost_set_reg b0] (Inr ())] @ ?post)"
      by (rule arming_write_only_one) (simp_all add: polls_no_write[OF p] polls_no_write[OF p2])
    moreover have "trace s' = trace s @ polls @ [WriteThenRead [CTRL_REG1 c] 1 (Inr [b0]),
                                        Write [CTRL_REG1 c, ost_set_reg b0] (Inr ())] @ ?post"
      using t t2 t3 by simp
    ultimately show ?thesis using m m2 m3 by (metis (no_types))
  qed
qed

lemma read3_fin:
  assumes "and_then (hal_write_then_read c h [reg] 3) (\<lambda>buf.
           and_then (array_at buf 0) (\<lambda>b0.
           and_then (array_at buf 1) (\<lambda>b1.
           and_then (array_at buf 2) (\<lambda>b2 s. (Inr (k b0 b1 b2), s))))) s = (r, s')"
  shows "sensor_mode s' = sensor_mode s \<and> (\<exists>p n out. trace s' = trace s @ [WriteThenRead p n out])"
  using assms
  by (auto simp: and_then_def hal_write_then_read_def array_at_def map_upt_3 split: prod.splits sum.splits)

lemma read2_fin:
  assumes "and_then (hal_write_then_read c h [reg] 2) (\<lambda>buf.
           and_then (array_at buf 0) (\<lambda>b0.
           and_then (array_at buf 4) (\<lambda>b4 s. (Inr (k b0 b4), s)))) s = (r, s')"
  shows "sensor_mode s' = sensor_mode s \<and> (\<exists>p n out. trace s' = trace s @ [WriteThenRead p n out])"
  using assms
  by (auto simp: and_then_def hal_write_then_read_def array_at_def map_upt_2 split: prod.splits sum.splits)


lemma p_read_cases:
  assumes "p_read c h s = Some (r, s')"
  shows "(sensor_mode s \<noteq> BAROMETER_M \<and> (\<exists>e. set_mode c h BAROMETER_M s = (Inl e, s') \<and> r = Inl e)) \<or>
         (\<exists>s0. (if sensor_mode s \<noteq> BAROMETER_M then set_mode c h BAROMETER_M s else (Inr (), s)) = (Inr (), s0) \<and>
               sensor_mode s' = sensor_mode s0 \<and>
               (\<exists>evs. trace s' = trace s0 @ evs \<and> arming_write_only c evs))"
proof -
  from and_then_p_cases[OF assms[unfolded p_read_def]]
  show ?thesis
  proof (elim disjE exE conjE)
    fix e
    assume "returns (\<lambda>s. if sensor_mode s \<noteq> BAROMETER_M then set_mode c h BAROMETER_M s else (Inr (), s)) s
              = Some (Inl e, s')" "r = Inl e"
    then show ?thesis by (auto simp: returns_def split: if_splits)
  next
    fix x s0
    let ?fin = "and_then (hal_write_then_read c h [OUT_P_MSB_R c] 3) (\<lambda>pres_buffer.
                and_then (array_at pres_buffer 0) (\<lambda>b0.
                and_then (array_at pres_buffer 1) (\<lambda>b1.
                and_then (array_at pres_buffer 2) (\<lambda>b2 s.
                  (Inr \<lparr>pressure = real (unat (pressure_reading b0 b1 b2)) / 64\<rparr>, s)))))"
    assume 1: "returns (\<lambda>s. if sensor_mode s \<noteq> BAROMETER_M then set_mode c h BAROMETER_M s else (Inr (), s)) s
              = Some (Inr x, s0)"
      and 2: "and_then_p (initiate_one_shot c h) (\<lambda>_.
              and_then_p (data_ready_loop c h) (\<lambda>_. returns ?fin)) s0 = Some (r, s')"
    have fin: "\<And>s r s'. ?fin s = (r, s') \<Longrightarrow>
                 sensor_mode s' = sensor_mode s \<and> (\<exists>p n out. trace s' = trace s @ [WriteThenRead p n out])"
      by (rule read3_fin)
    from one_shot_poll_then[OF 2 fin] 1 show ?thesis
      by (simp add: returns_def)
  qed
qed

lemma p_read_leaves_barometer:
  assumes "p_read c h s = Some (Inr v, s')"
  shows "sensor_mode s' = BAROMETER_M"
proof -
  from p_read_cases[OF assms] obtain s0 where
    0: "(if sensor_mode s \<noteq> BAROMETER_M then set_mode c h BAROMETER_M s else (Inr (), s)) = (Inr (), s0)"
    and m: "sensor_mode s' = sensor_mode s0" by auto
  have "sensor_mode s0 = BAROMETER_M"
  proof (cases "sensor_mode s \<noteq> BAROMETER_M")
    case True
    with 0 have "set_mode c h BAROMETER_M s = (Inr (), s0)" by simp
    from set_mode_cases[OF this] show ?thesis by auto
  next
    case False
    with 0 show ?thesis by auto
  qed
  with m show ?thesis by simp
qed

subsection \<open>Preservation of the mode-tracking invariant\<close>

lemma last_alt_written_append:
  "last_alt_written c a (xs @ ys) = last_alt_written c (last_alt_written c a xs) ys"
  by (induction xs arbitrary: a) auto

lemma readback_consistent_append:
  "readback_consistent c a (xs @ ys) \<longleftrightarrow>
     readback_consistent c a xs \<and> readback_consistent c (last_alt_written c a xs) ys"
  by (induction xs arbitrary: a) auto

lemma no_write_alt_bit: "\<not> is_write e \<Longrightarrow> alt_bit_written c e = None"
  by (cases e) auto

lemma no_writes_last_alt: "filter is_write evs = [] \<Longrightarrow> last_alt_written c a evs = a"
proof (induction evs arbitrary: a)
  case Nil
  then show ?case by simp
next
  case (Cons e evs)
  then show ?case by (cases "is_write e") (auto simp: no_write_alt_bit)
qed

lemma arming_keeps_inv:
  assumes inv: "last_alt_written c None tr = Some x"
      and arm: "arming_write_only c evs"
      and rb: "readback_consistent c (last_alt_written c None tr) evs"
  shows "last_alt_written c None (tr @ evs) = Some x"
proof -
  from arm consider
    (none) "filter is_write evs = []"
  | (one) pre b out post where
      "evs = pre @ [WriteThenRead [CTRL_REG1 c] 1 (Inr [b]), Write [CTRL_REG1 c, ost_set_reg b] out] @ post"
      "filter is_write pre = []" "filter is_write post = []"
    unfolding arming_write_only_def by blast
  then show ?thesis
  proof cases
    case none
    then show ?thesis by (simp add: last_alt_written_append no_writes_last_alt inv)
  next
    case one
    have "bit b 7 = x"
      using rb unfolding one(1) inv
      by (simp add: readback_consistent_append no_writes_last_alt[OF one(2)])
    moreover have "bit (ost_set_reg b) 7 = bit b 7" by (simp add: bit_ost_set_reg)
    ultimately show ?thesis
      unfolding one(1)
      by (cases out) (simp_all add: last_alt_written_append no_writes_last_alt[OF one(2)]
          no_writes_last_alt[OF one(3)] inv)
  qed
qed


lemma mode_inv_append:
  assumes "mode_inv c s" and "sensor_mode s' = sensor_mode s" and "trace s' = trace s @ evs"
      and "arming_write_only c evs"
      and "readback_consistent c (last_alt_written c None (trace s)) evs"
  shows "mode_inv c s'"
  using arming_keeps_inv[OF assms(1)[unfolded mode_inv_def] assms(4,5)] assms(2,3)
  by (simp add: mode_inv_def)

lemma set_mode_keeps_inv:
  assumes "set_mode c h m s = (r, s')" and "mode_inv c s \<or> r = Inr ()"
  shows "mode_inv c s'" and "\<exists>evs. trace s' = trace s @ evs"
  using set_mode_cases[OF assms(1)] assms(2)
  by (auto simp: mode_inv_def last_alt_written_append bit_mode_set_reg)

lemma mode_switch_keeps_inv:
  assumes "mode_inv c s"
      and "(if sensor_mode s \<noteq> m then set_mode c h m s else (Inr (), s)) = (r, s0)"
  shows "mode_inv c s0" and "\<exists>evs. trace s0 = trace s @ evs"
  using assms set_mode_keeps_inv[of c h m s r s0] by (auto split: if_splits)

lemma a_read_cases:
  assumes "a_read c h s = Some (r, s')"
  shows "(sensor_mode s \<noteq> ALTIMETER_M \<and> (\<exists>e. set_mode c h ALTIMETER_M s = (Inl e, s') \<and> r = Inl e)) \<or>
         (\<exists>s0. (if sensor_mode s \<noteq> ALTIMETER_M then set_mode c h ALTIMETER_M s else (Inr (), s)) = (Inr (), s0) \<and>
               sensor_mode s' = sensor_mode s0 \<and>
               (\<exists>evs. trace s' = trace s0 @ evs \<and> arming_write_only c evs))"
proof -
  from and_then_p_cases[OF assms[unfolded a_read_def]]
  show ?thesis
  proof (elim disjE exE conjE)
    fix e
    assume "returns (\<lambda>s. if sensor_mode s \<noteq> ALTIMETER_M then set_mode c h ALTIMETER_M s else (Inr (), s)) s
              = Some (Inl e, s')" "r = Inl e"
    then show ?thesis by (auto simp: returns_def split: if_splits)
  next
    fix x s0
    let ?fin = "and_then (hal_write_then_read c h [OUT_P_MSB_R c] 3) (\<lambda>alt_buffer.
                and_then (array_at alt_buffer 0) (\<lambda>b0.
                and_then (array_at alt_buffer 1) (\<lambda>b1.
                and_then (array_at alt_buffer 2) (\<lambda>b2 s.
                  (Inr \<lparr>altitude = real (unat (alt_reading b0 b1 b2)) / 65536\<rparr>, s)))))"
    assume 1: "returns (\<lambda>s. if sensor_mode s \<noteq> ALTIMETER_M then set_mode c h ALTIMETER_M s else (Inr (), s)) s
              = Some (Inr x, s0)"
      and 2: "and_then_p (initiate_one_shot c h) (\<lambda>_.
              and_then_p (data_ready_loop c h) (\<lambda>_. returns ?fin)) s0 = Some (r, s')"
    have fin: "\<And>s r s'. ?fin s = (r, s') \<Longrightarrow>
                 sensor_mode s' = sensor_mode s \<and> (\<exists>p n out. trace s' = trace s @ [WriteThenRead p n out])"
      by (rule read3_fin)
    from one_shot_poll_then[OF 2 fin] 1 show ?thesis
      by (simp add: returns_def)
  qed
qed

lemma p_read_keeps_inv:
  assumes inv: "mode_inv c s" and run: "p_read c h s = Some (r, s')"
      and rb: "readback_consistent c (last_alt_written c None (trace s)) (drop (length (trace s)) (trace s'))"
  shows "mode_inv c s'"
  using p_read_cases[OF run]
proof (elim disjE exE conjE)
  fix e assume "set_mode c h BAROMETER_M s = (Inl e, s')"
  from set_mode_keeps_inv(1)[OF this] inv show ?thesis by simp
next
  fix s0 evs
  assume sw: "(if sensor_mode s \<noteq> BAROMETER_M then set_mode c h BAROMETER_M s else (Inr (), s)) = (Inr (), s0)"
    and m: "sensor_mode s' = sensor_mode s0" and t: "trace s' = trace s0 @ evs"
    and a: "arming_write_only c evs"
  from mode_switch_keeps_inv[OF inv sw] obtain evs0 where
    inv0: "mode_inv c s0" and t0: "trace s0 = trace s @ evs0" by blast
  from rb have "readback_consistent c (last_alt_written c None (trace s0)) evs"
    by (simp add: t t0 readback_consistent_append last_alt_written_append)
  from mode_inv_append[OF inv0 m t a this] show ?thesis .
qed

lemma a_read_keeps_inv:
  assumes inv: "mode_inv c s" and run: "a_read c h s = Some (r, s')"
      and rb: "readback_consistent c (last_alt_written c None (trace s)) (drop (length (trace s)) (trace s'))"
  shows "mode_inv c s'"
  using a_read_cases[OF run]
proof (elim disjE exE conjE)
  fix e assume "set_mode c h ALTIMETER_M s = (Inl e, s')"
  from set_mode_keeps_inv(1)[OF this] inv show ?thesis by simp
next
  fix s0 evs
  assume sw: "(if sensor_mode s \<noteq> ALTIMETER_M then set_mode c h ALTIMETER_M s else (Inr (), s)) = (Inr (), s0)"
    and m: "sensor_mode s' = sensor_mode s0" and t: "trace s' = trace s0 @ evs"
    and a: "arming_write_only c evs"
  from mode_switch_keeps_inv[OF inv sw] obtain evs0 where
    inv0: "mode_inv c s0" and t0: "trace s0 = trace s @ evs0" by blast
  from rb have "readback_consistent c (last_alt_written c None (trace s0)) evs"
    by (simp add: t t0 readback_consistent_append last_alt_written_append)
  from mode_inv_append[OF inv0 m t a this] show ?thesis .
qed

lemma t_read_keeps_inv:
  assumes inv: "mode_inv c s" and run: "t_read c h s = Some (r, s')"
      and rb: "readback_consistent c (last_alt_written c None (trace s)) (drop (length (trace s)) (trace s'))"
  shows "mode_inv c s'"
proof -
  let ?fin = "and_then (hal_write_then_read c h [OUT_T_MSB_R c] 2) (\<lambda>temp_buffer.
              and_then (array_at temp_buffer 0) (\<lambda>b0.
              and_then (array_at temp_buffer 4) (\<lambda>b4 s.
                (Inr \<lparr>temperature = real_of_int (sint (temp_reading b0 b4)) / 256\<rparr>, s))))"
  have "sensor_mode s' = sensor_mode s \<and> (\<exists>evs. trace s' = trace s @ evs \<and> arming_write_only c evs)"
    by (rule one_shot_poll_then[where fin = ?fin, OF run[unfolded t_read_def]]) (rule read2_fin)
  then obtain evs where
    m: "sensor_mode s' = sensor_mode s" and t: "trace s' = trace s @ evs" and a: "arming_write_only c evs"
    by blast
  from rb have "readback_consistent c (last_alt_written c None (trace s)) evs" by (simp add: t)
  from mode_inv_append[OF inv m t a this] show ?thesis .
qed

lemma set_sea_pressure_keeps_inv:
  assumes "mode_inv c s" and "set_sea_pressure c h p s = (r, s')"
  shows "mode_inv c s'"
  using assms
  by (auto simp: set_sea_pressure_def Let_def hal_write_def mode_inv_def last_alt_written_append
      split: prod.splits sum.splits)

lemma set_altitude_offset_keeps_inv:
  assumes "mode_inv c s" and "set_altitude_offset c h offset s = (r, s')" and "regmap_ok c"
  shows "mode_inv c s'"
  using assms
  by (auto simp: set_altitude_offset_def hal_write_def mode_inv_def last_alt_written_append regmap_ok_def
      split: prod.splits sum.splits)

lemma begin_establishes_inv:
  assumes "mpl311_begin c h s0 = Some (Inr True, s)" and "regmap_ok c"
  shows "mode_inv c s"
proof -
  from assms(1) obtain s2 s3 where
    w1: "hal_write c h [CTRL_REG1 c, CTRL_REG1_OS128 c OR CTRL_REG1_ALT c] (s2\<lparr>sensor_mode := ALTIMETER_M\<rparr>) = (Inr (), s3)"
    and w2: "hal_write c h [PT_DATA_CFG_R c, PT_DATA_CFG_TDEFE c OR PT_DATA_CFG_PDEFE c OR PT_DATA_CFG_DREM c] s3 = (Inr (), s)"
    unfolding mpl311_begin_def
    by (auto dest!: and_then_p_cases simp: returns_def split: if_splits)
  have "bit (CTRL_REG1_OS128 c OR CTRL_REG1_ALT c) 7"
    using assms(2) by (simp add: regmap_ok_def bit_or_iff bit_128_iff)
  with hal_write_cases[OF w1] hal_write_cases[OF w2] assms(2) show ?thesis
    by (auto simp: mode_inv_def last_alt_written_append regmap_ok_def)
qed


section \<open>Temperature read\<close>

text \<open>
  C1. The temperature is to be the signed 16-bit value (MSB << 8) | LSB divided by 256, so
  26 degrees for the bytes 0x1A, 0x00. The code takes the low byte from
  \<^verbatim>\<open>temp_buffer[4]\<close>, and the buffer has two cells: on a device that answers 0x1A, 0x00 the
  run ends in the out-of-bounds access, not in a reading of 26.
\<close>

theorem t_read_raw_1A_00:
  "t_read mpl3115a2 mock_hw (start [Inr [0x00], Inr [], Inr [0x08], Inr [0x1A, 0x00]] ALTIMETER_M) =
     Some (Inl IndexOutOfBounds,
           \<lparr>device = [],
            trace = [WriteThenRead [0x26] 1 (Inr [0x00]), Write [0x26, 0x02] (Inr ()),
                     WriteThenRead [0x00] 1 (Inr [0x08]),
                     WriteThenRead [0x04] 2 (Inr [0x1A, 0x00])],
            sensor_mode = ALTIMETER_M\<rparr>)"
  by (simp add: t_read_def temp_reading_def run_defs)

text \<open>
  C2. Every index \<open>t_read\<close> uses should lie within the buffer it indexes. Index 4 does not:
  on no device, in no state, does \<open>t_read\<close> get past it to return a reading.
\<close>

theorem t_read_never_returns_a_reading:
  "t_read c h s \<noteq> Some (Inr v, s')"
proof
  assume "t_read c h s = Some (Inr v, s')"
  then show False
    unfolding t_read_def
    by (auto dest!: and_then_p_cases simp: returns_def temp_buffer_index_4)
qed

section \<open>Altitude read\<close>

text \<open>
  C3. The altitude is to be the signed value packed as (MSB << 24) | (CSB << 16) | (LSB << 8)
  divided by 65536, negative whenever the top bit of MSB is set. The code keeps the packed
  value in a \<^verbatim>\<open>uint32_t\<close> and converts that to \<^verbatim>\<open>float\<close>: for the bytes 0x80, 0x00, 0x00 it
  returns +32768 m where the signed reading is -32768 m.
\<close>

theorem a_read_raw_80_00_00:
  "a_read mpl3115a2 mock_hw (start [Inr [0x00], Inr [], Inr [0x08], Inr [0x80, 0x00, 0x00]] ALTIMETER_M) =
     Some (Inr \<lparr>altitude = 32768\<rparr>,
           \<lparr>device = [],
            trace = [WriteThenRead [0x26] 1 (Inr [0x00]), Write [0x26, 0x02] (Inr ()),
                     WriteThenRead [0x00] 1 (Inr [0x08]),
                     WriteThenRead [0x01] 3 (Inr [0x80, 0x00, 0x00])],
            sensor_mode = ALTIMETER_M\<rparr>)"
  by (simp add: a_read_def alt_reading_def run_defs)

section \<open>Identity check\<close>

text \<open>
  C4. When the identity register reads back one byte other than 0xC4, \<open>mpl311_begin\<close> returns
  false and \<open>create\<close> fails with \<open>UnexpectedDevice\<close>; the only transaction on the bus is the
  identity read, so nothing is written afterwards.
\<close>

theorem create_unexpected_device:
  assumes "i2c_transaction h (device_address c) [WHOAMI_R c] 1 (device s) = (Inr f, d1)"
      and "f 0 \<noteq> 0xC4"
  shows "mpl311_begin c h s =
           Some (Inr False, s\<lparr>device := d1, trace := trace s @ [WriteThenRead [WHOAMI_R c] 1 (Inr [f 0])]\<rparr>) \<and>
         create c h s =
           Some (Inl UnexpectedDevice,
                 s\<lparr>device := d1, trace := trace s @ [WriteThenRead [WHOAMI_R c] 1 (Inr [f 0])]\<rparr>)"
  using assms
  by (simp add: create_def mpl311_begin_def and_then_p_def returns_def hal_write_then_read_def array_at_def)

theorem create_unexpected_device_witness:
  "create mpl3115a2 mock_hw (start [Inr [0x55], Inr []] BAROMETER_M) =
     Some (Inl UnexpectedDevice,
           \<lparr>device = [Inr []], trace = [WriteThenRead [0x0C] 1 (Inr [0x55])], sensor_mode = BAROMETER_M\<rparr>)"
proof -
  let ?f = "\<lambda>i. if i < length [0x55 :: byte] then [0x55 :: byte] ! i else 0"
  have 1: "i2c_transaction mock_hw (device_address mpl3115a2) [WHOAMI_R mpl3115a2] 1
             (device (start [Inr [0x55], Inr []] BAROMETER_M)) = (Inr ?f, [Inr []])"
    by (simp add: mock_hw_def start_def)
  have 2: "?f 0 \<noteq> 0xC4" by simp
  show ?thesis
    using create_unexpected_device[OF 1 2] by (simp add: start_def mpl3115a2_def)
qed

section \<open>Mode write on a pressure read\<close>

text \<open>
  C5. When the tracked mode is already the barometer, be it from the start or because a
  \<open>p_read\<close> has just succeeded, a call of \<open>p_read\<close> issues no mode write: the only write it
  can issue is the one that arms the measurement, which writes back the byte just polled
  with the one-shot bit set and so keeps the altitude-mode bit (\<open>bit_ost_set_reg\<close>). An
  explicit \<open>set_mode\<close>, in contrast, issues its write whatever the tracked mode is, as soon
  as control register 1 could be read.
\<close>

theorem p_read_barometer_no_mode_write:
  assumes "p_read c h s = Some (r, s')"
      and "sensor_mode s = BAROMETER_M \<or> (\<exists>s0 v. p_read c h s0 = Some (Inr v, s))"
      and "i2c_transaction h (device_address c) [CTRL_REG1 c] 1 (device t) = (Inr f, d1)"
  shows "(\<exists>evs. trace s' = trace s @ evs \<and> arming_write_only c evs) \<and>
         (\<exists>out. trace (snd (set_mode c h m t)) =
            trace t @ [WriteThenRead [CTRL_REG1 c] 1 (Inr [f 0]),
                       Write [CTRL_REG1 c, mode_set_reg m (f 0)] out])"
proof
  from assms(2) have b: "sensor_mode s = BAROMETER_M"
    using p_read_leaves_barometer by blast
  from p_read_cases[OF assms(1)] b
  show "\<exists>evs. trace s' = trace s @ evs \<and> arming_write_only c evs" by auto
  obtain x d2 where "i2c_transaction h (device_address c) [CTRL_REG1 c, mode_set_reg m (f 0)] 0 d1 = (x, d2)"
    by (cases "i2c_transaction h (device_address c) [CTRL_REG1 c, mode_set_reg m (f 0)] 0 d1")
  with assms(3)
  show "\<exists>out. trace (snd (set_mode c h m t)) =
            trace t @ [WriteThenRead [CTRL_REG1 c] 1 (Inr [f 0]),
                       Write [CTRL_REG1 c, mode_set_reg m (f 0)] out]"
    by (cases x) (auto simp: set_mode_def and_then_def hal_write_then_read_def array_at_def hal_write_def)
qed

theorem p_read_barometer_no_mode_write_witness:
  "p_read mpl3115a2 mock_hw
     (start [Inr [0x80], Inr [], Inr [0x00], Inr [], Inr [0x08], Inr [0x01, 0x00, 0x00],
             Inr [0x00], Inr [], Inr [0x08], Inr [0x01, 0x00, 0x00]] ALTIMETER_M) =
   Some (Inr \<lparr>pressure = 1024\<rparr>,
         \<lparr>device = [Inr [0x00], Inr [], Inr [0x08], Inr [0x01, 0x00, 0x00]],
          trace = [WriteThenRead [0x26] 1 (Inr [0x80]), Write [0x26, 0x00] (Inr ()),
                   WriteThenRead [0x26] 1 (Inr [0x00]), Write [0x26, 0x02] (Inr ()),
                   WriteThenRead [0x00] 1 (Inr [0x08]),
                   WriteThenRead [0x01] 3 (Inr [0x01, 0x00, 0x00])],
          sensor_mode = BAROMETER_M\<rparr>) \<and>
   p_read mpl3115a2 mock_hw
     \<lparr>device = [Inr [0x00], Inr [], Inr [0x08], Inr [0x01, 0x00, 0x00]],
      trace = [WriteThenRead [0x26] 1 (Inr [0x80]), Write [0x26, 0x00] (Inr ()),
               WriteThenRead [0x26] 1 (Inr [0x00]), Write [0x26, 0x02] (Inr ()),
               WriteThenRead [0x00] 1 (Inr [0x08]),
               WriteThenRead [0x01] 3 (Inr [0x01, 0x00, 0x00])],
      sensor_mode = BAROMETER_M\<rparr> =
   Some (Inr \<lparr>pressure = 1024\<rparr>,
         \<lparr>device = [],
          trace = [WriteThenRead [0x26] 1 (Inr [0x80]), Write [0x26, 0x00] (Inr ()),
                   WriteThenRead [0x26] 1 (Inr [0x00]), Write [0x26, 0x02] (Inr ()),
                   WriteThenRead [0x00] 1 (Inr [0x08]),
                   WriteThenRead [0x01] 3 (Inr [0x01, 0x00, 0x00])] @
                  [WriteThenRead [0x26] 1 (Inr [0x00]), Write [0x26, 0x02] (Inr ()),
                   WriteThenRead [0x00] 1 (Inr [0x08]),
                   WriteThenRead [0x01] 3 (Inr [0x01, 0x00, 0x00])],
          sensor_mode = BAROMETER_M\<rparr>) \<and>
   arming_write_only mpl3115a2
     [WriteThenRead [0x26] 1 (Inr [0x00]), Write [0x26, 0x02] (Inr ()),
      WriteThenRead [0x00] 1 (Inr [0x08]), WriteThenRead [0x01] 3 (Inr [0x01, 0x00, 0x00])] \<and>
   trace (snd (set_mode mpl3115a2 mock_hw BAROMETER_M (start [Inr [0x00], Inr []] BAROMETER_M))) =
     [WriteThenRead [0x26] 1 (Inr [0x00]), Write [0x26, 0x00] (Inr ())]"
proof -
  let ?init = "start [Inr [0x80], Inr [], Inr [0x00], Inr [], Inr [0x08], Inr [0x01, 0x00, 0x00],
                    Inr [0x00], Inr [], Inr [0x08], Inr [0x01, 0x00, 0x00]] ALTIMETER_M"
  let ?tr = "[WriteThenRead [0x26] 1 (Inr [0x80]), Write [0x26, 0x00] (Inr ()),
              WriteThenRead [0x26] 1 (Inr [0x00]), Write [0x26, 0x02] (Inr ()),
              WriteThenRead [0x00] 1 (Inr [0x08]),
              WriteThenRead [0x01] 3 (Inr [0x01, 0x00, 0x00 :: byte])]"
  let ?evs = "[WriteThenRead [0x26] 1 (Inr [0x00]), Write [0x26, 0x02] (Inr ()),
               WriteThenRead [0x00] 1 (Inr [0x08]), WriteThenRead [0x01] 3 (Inr [0x01, 0x00, 0x00 :: byte])]"
  let ?mid = "\<lparr>device = [Inr [0x00], Inr [], Inr [0x08], Inr [0x01, 0x00, 0x00 :: byte]] :: script,
             trace = ?tr, sensor_mode = BAROMETER_M\<rparr>"
  let ?final = "\<lparr>device = [] :: script, trace = ?tr @ ?evs, sensor_mode = BAROMETER_M\<rparr>"
  let ?t = "start [Inr [0x00], Inr []] BAROMETER_M"
  let ?f = "\<lambda>i. if i < length [0x00 :: byte] then [0x00 :: byte] ! i else 0"
  have first: "p_read mpl3115a2 mock_hw ?init = Some (Inr \<lparr>pressure = 1024\<rparr>, ?mid)"
    by (simp add: p_read_def set_mode_def mode_set_reg_def pressure_reading_def run_defs)
  have 1: "p_read mpl3115a2 mock_hw ?mid = Some (Inr \<lparr>pressure = 1024\<rparr>, ?final)"
    by (simp add: p_read_def pressure_reading_def run_defs)
  have 2: "sensor_mode ?mid = BAROMETER_M \<or> (\<exists>s0 v. p_read mpl3115a2 mock_hw s0 = Some (Inr v, ?mid))"
    using first by blast
  have 3: "i2c_transaction mock_hw (device_address mpl3115a2) [CTRL_REG1 mpl3115a2] 1 (device ?t) =
           (Inr ?f, [Inr []])"
    by (simp add: mock_hw_def start_def)
  from p_read_barometer_no_mode_write[OF 1 2 3, of BAROMETER_M]
  have "arming_write_only mpl3115a2 ?evs"
    and "\<exists>out. trace (snd (set_mode mpl3115a2 mock_hw BAROMETER_M ?t)) =
            trace ?t @ [WriteThenRead [CTRL_REG1 mpl3115a2] 1 (Inr [?f 0]),
                       Write [CTRL_REG1 mpl3115a2, mode_set_reg BAROMETER_M (?f 0)] out]"
    by simp_all
  moreover have "trace (snd (set_mode mpl3115a2 mock_hw BAROMETER_M ?t)) =
     [WriteThenRead [0x26] 1 (Inr [0x00]), Write [0x26, 0x00] (Inr ())]"
    by (simp add: set_mode_def mode_set_reg_def run_defs)
  ultimately show ?thesis using first 1 by simp
qed

section \<open>Mode switch\<close>

text \<open>
  C6. Whatever byte control register 1 reads back and whatever the target mode, \<open>set_mode\<close>
  writes back a byte that agrees with the byte read in every bit but bit 7, the altitude-mode
  bit, which it sets exactly when the target is the altimeter; once the write is
  acknowledged, \<open>sensor_mode\<close> is the target.
\<close>

theorem set_mode_forces_alt_bit:
  assumes "i2c_transaction h (device_address c) [CTRL_REG1 c] 1 (device s) = (Inr f, d1)"
      and "i2c_transaction h (device_address c) [CTRL_REG1 c, mode_set_reg m (f 0)] 0 d1 = (Inr g, d2)"
  shows "set_mode c h m s =
           (Inr (), \<lparr>device = d2,
                     trace = trace s @ [WriteThenRead [CTRL_REG1 c] 1 (Inr [f 0]),
                                        Write [CTRL_REG1 c, mode_set_reg m (f 0)] (Inr ())],
                     sensor_mode = m\<rparr>) \<and>
         mode_set_reg m (f 0) AND 0x7F = f 0 AND 0x7F \<and>
         bit (mode_set_reg m (f 0)) 7 = (m = ALTIMETER_M)"
  using assms
  by (simp add: set_mode_def and_then_def hal_write_then_read_def array_at_def hal_write_def
      mode_set_reg_low_bits bit_mode_set_reg)

theorem set_mode_forces_alt_bit_witness:
  "set_mode mpl3115a2 mock_hw ALTIMETER_M (start [Inr [0x3A], Inr []] BAROMETER_M) =
     (Inr (), \<lparr>device = [],
               trace = [WriteThenRead [0x26] 1 (Inr [0x3A]), Write [0x26, 0xBA] (Inr ())],
               sensor_mode = ALTIMETER_M\<rparr>) \<and>
   (0xBA :: byte) AND 0x7F = 0x3A AND 0x7F \<and> bit (0xBA :: byte) 7"
proof -
  let ?f = "\<lambda>i. if i < length [0x3A :: byte] then [0x3A :: byte] ! i else 0"
  let ?g = "\<lambda>i. if i < length ([] :: byte list) then ([] :: byte list) ! i else 0"
  have v: "mode_set_reg ALTIMETER_M 0x3A = 0xBA" by (simp add: mode_set_reg_def)
  have 1: "i2c_transaction mock_hw (device_address mpl3115a2) [CTRL_REG1 mpl3115a2] 1
             (device (start [Inr [0x3A], Inr []] BAROMETER_M)) = (Inr ?f, [Inr []])"
    by (simp add: mock_hw_def start_def)
  have 2: "i2c_transaction mock_hw (device_address mpl3115a2)
             [CTRL_REG1 mpl3115a2, mode_set_reg ALTIMETER_M (?f 0)] 0 [Inr []] = (Inr ?g, [])"
    by (simp add: mock_hw_def)
  show ?thesis
    using set_mode_forces_alt_bit[OF 1 2] by (simp add: start_def mpl3115a2_def v)
qed

section \<open>Bus failure while polling for data\<close>

text \<open>
  C7. Take an execution of \<open>p_read\<close> that has reached its data-ready polling loop (state
  \<open>s1\<close>), on a device that has no data for \<open>n\<close> polls and whose transport then fails the
  write-then-read of the status register with some code. Then \<open>p_read\<close> returns, and what it
  returns is \<open>BusError\<close> with that code; the failed status read is the last transaction on
  the bus, and the whole call has issued no read of the output registers.
\<close>

theorem p_read_poll_failure:
  assumes "p_read_armed c h s = Some (Inr (), s1)"
      and "unready_polls c h n (device s1) = Some d2"
      and "i2c_transaction h (device_address c) [STATUS_R c] 1 d2 = (Inl code, d3)"
  shows "\<exists>s2. p_read c h s = Some (Inl (BusError code), s2) \<and> device s2 = d3 \<and>
           (\<exists>polls. list_all (is_poll (STATUS_R c)) polls \<and>
              trace s2 = trace s1 @ polls @ [WriteThenRead [STATUS_R c] 1 (Inl code)]) \<and>
           (\<exists>evs. trace s2 = trace s @ evs \<and> list_all (\<lambda>ev. \<not> reads_output c ev) evs)"
proof -
  from data_ready_loop_transport_failure[OF assms(2,3)] obtain s2 where
    loop: "data_ready_loop c h s1 = Some (Inl (BusError code), s2)" and d: "device s2 = d3"
    by blast
  have run: "p_read c h s = Some (Inl (BusError code), s2)"
    using assms(1) loop by (simp add: p_read_split_armed and_then_p_def)
  from data_ready_loop_Inl(1)[OF loop] obtain polls where
    p: "list_all (is_poll (STATUS_R c)) polls"
       "trace s2 = trace s1 @ polls @ [WriteThenRead [STATUS_R c] 1 (Inl code)]"
    by auto
  from p_read_armed_trace[OF assms(1)] obtain evs1 where
    e1: "trace s1 = trace s @ evs1" "list_all (\<lambda>ev. \<not> reads_output c ev) evs1" by blast
  have "\<exists>evs. trace s2 = trace s @ evs \<and> list_all (\<lambda>ev. \<not> reads_output c ev) evs"
    using e1 p polls_no_output[OF p(1), of c]
    by (intro exI[of _ "evs1 @ polls @ [WriteThenRead [STATUS_R c] 1 (Inl code)]"]) simp
  with run d p show ?thesis by blast
qed

theorem p_read_poll_failure_witness:
  "p_read mpl3115a2 mock_hw
     (start [Inr [0x00], Inr [], Inr [0x00], Inl 5, Inr [0x01, 0x00, 0x00]] BAROMETER_M) =
   Some (Inl (BusError 5),
         \<lparr>device = [Inr [0x01, 0x00, 0x00]],
          trace = [WriteThenRead [0x26] 1 (Inr [0x00]), Write [0x26, 0x02] (Inr ()),
                   WriteThenRead [0x00] 1 (Inr [0x00]), Delay, WriteThenRead [0x00] 1 (Inl 5)],
          sensor_mode = BAROMETER_M\<rparr>)"
proof -
  let ?init = "start [Inr [0x00], Inr [], Inr [0x00], Inl 5, Inr [0x01, 0x00, 0x00]] BAROMETER_M"
  let ?armed = "\<lparr>device = [Inr [0x00], Inl 5, Inr [0x01, 0x00, 0x00 :: byte]] :: script,
                 trace = [WriteThenRead [0x26] 1 (Inr [0x00]), Write [0x26, 0x02] (Inr ())],
                 sensor_mode = BAROMETER_M\<rparr>"
  have 1: "p_read_armed mpl3115a2 mock_hw ?init = Some (Inr (), ?armed)"
    by (simp add: p_read_armed_def run_defs)
  have 2: "unready_polls mpl3115a2 mock_hw 1 (device ?armed) =
           Some [Inl 5, Inr [0x01, 0x00, 0x00]]"
    by (simp add: mock_hw_def mpl3115a2_def)
  have 3: "i2c_transaction mock_hw (device_address mpl3115a2) [STATUS_R mpl3115a2] 1
             [Inl 5, Inr [0x01, 0x00, 0x00]] = (Inl 5, [Inr [0x01, 0x00, 0x00]])"
    by (simp add: mock_hw_def)
  from p_read_poll_failure[OF 1 2 3] obtain final where
    r: "p_read mpl3115a2 mock_hw ?init = Some (Inl (BusError 5), final)"
    and d: "device final = [Inr [0x01, 0x00, 0x00]]"
    and t: "\<exists>polls. list_all (is_poll (STATUS_R mpl3115a2)) polls \<and>
              trace final = trace ?armed @ polls @ [WriteThenRead [STATUS_R mpl3115a2] 1 (Inl 5)]"
    by blast
  have "p_read mpl3115a2 mock_hw ?init =
        Some (Inl (BusError 5),
         \<lparr>device = [Inr [0x01, 0x00, 0x00]],
          trace = [WriteThenRead [0x26] 1 (Inr [0x00]), Write [0x26, 0x02] (Inr ()),
                   WriteThenRead [0x00] 1 (Inr [0x00]), Delay, WriteThenRead [0x00] 1 (Inl 5)],
          sensor_mode = BAROMETER_M\<rparr>)"
    by (simp add: p_read_def run_defs)
  with r show ?thesis by simp
qed

section \<open>The tracked mode and the hardware mode bit\<close>

text \<open>
  C8. With the constants as \<open>regmap_ok\<close> asks: when \<open>mpl311_begin\<close> completes (which is when
  \<open>create\<close> does), and after every successful \<open>set_mode\<close>, \<open>sensor_mode\<close> equals the
  altitude-mode bit the driver last wrote to control register 1; and every operation of the
  driver that ends with defined behaviour keeps this so, provided the bytes it read back
  from control register 1 showed the bit as last written (no out-of-band write).
\<close>

theorem sensor_mode_tracks_alt_bit:
  assumes "regmap_ok c"
  shows "(mpl311_begin c h s0 = Some (Inr True, s) \<longrightarrow> mode_inv c s) \<and>
         (set_mode c h m s = (Inr (), s') \<longrightarrow> mode_inv c s') \<and>
         (mode_inv c s \<and> api_call c h op s = Some (r, s') \<and> \<not> undefined_behaviour r \<and>
          readback_consistent c (last_alt_written c None (trace s)) (drop (length (trace s)) (trace s'))
            \<longrightarrow> mode_inv c s')"
proof (intro conjI impI)
  assume "mpl311_begin c h s0 = Some (Inr True, s)"
  from begin_establishes_inv[OF this assms] show "mode_inv c s" .
next
  assume "set_mode c h m s = (Inr (), s')"
  from set_mode_keeps_inv(1)[OF this] show "mode_inv c s'" by simp
next
  assume a: "mode_inv c s \<and> api_call c h op s = Some (r, s') \<and> \<not> undefined_behaviour r \<and>
          readback_consistent c (last_alt_written c None (trace s)) (drop (length (trace s)) (trace s'))"
  then have inv: "mode_inv c s" and run: "api_call c h op s = Some (r, s')"
    and rb: "readback_consistent c (last_alt_written c None (trace s)) (drop (length (trace s)) (trace s'))"
    by simp_all
  show "mode_inv c s'"
  proof (cases op)
    case ReadTemperature
    with run obtain r0 where "t_read c h s = Some (r0, s')" by (auto simp: drop_value_def)
    from t_read_keeps_inv[OF inv this rb] show ?thesis .
  next
    case ReadPressure
    with run obtain r0 where "p_read c h s = Some (r0, s')" by (auto simp: drop_value_def)
    from p_read_keeps_inv[OF inv this rb] show ?thesis .
  next
    case ReadAltitude
    with run obtain r0 where "a_read c h s = Some (r0, s')" by (auto simp: drop_value_def)
    from a_read_keeps_inv[OF inv this rb] show ?thesis .
  next
    case (SetSeaPressure p)
    with run have "set_sea_pressure c h p s = (r, s')" by simp
    from set_sea_pressure_keeps_inv[OF inv this] show ?thesis .
  next
    case (SetAltitudeOffset offset)
    with run have "set_altitude_offset c h offset s = (r, s')" by simp
    from set_altitude_offset_keeps_inv[OF inv this assms] show ?thesis .
  next
    case (SetMode m')
    with run have "set_mode c h m' s = (r, s')" by simp
    from set_mode_keeps_inv(1)[OF this] inv show ?thesis by simp
  qed
qed

theorem sensor_mode_tracks_alt_bit_witness:
  "regmap_ok mpl3115a2 \<and>
   mpl311_begin mpl3115a2 mock_hw
     (start [Inr [0xC4], Inr [], Inr [0x04], Inr [0x00], Inr [], Inr [],
             Inr [0xB8], Inr [],
             Inr [0x38], Inr [], Inr [0x08], Inr [0x01, 0x00, 0x00]] BAROMETER_M) =
   Some (Inr True,
     \<lparr>device = [Inr [0xB8], Inr [], Inr [0x38], Inr [], Inr [0x08], Inr [0x01, 0x00, 0x00]],
      trace = [WriteThenRead [0x0C] 1 (Inr [0xC4]), Write [0x26, 0x04] (Inr ()),
               WriteThenRead [0x26] 1 (Inr [0x04]), Delay, WriteThenRead [0x26] 1 (Inr [0x00]),
               Write [0x26, 0xB8] (Inr ()), Write [0x13, 0x07] (Inr ())],
      sensor_mode = ALTIMETER_M\<rparr>) \<and>
   mode_inv mpl3115a2
     \<lparr>device = [Inr [0xB8], Inr [], Inr [0x38], Inr [], Inr [0x08], Inr [0x01, 0x00, 0x00]] :: script,
      trace = [WriteThenRead [0x0C] 1 (Inr [0xC4]), Write [0x26, 0x04] (Inr ()),
               WriteThenRead [0x26] 1 (Inr [0x04]), Delay, WriteThenRead [0x26] 1 (Inr [0x00]),
               Write [0x26, 0xB8] (Inr ()), Write [0x13, 0x07] (Inr ())],
      sensor_mode = ALTIMETER_M\<rparr> \<and>
   mode_inv mpl3115a2
     \<lparr>device = [Inr [0x38], Inr [], Inr [0x08], Inr [0x01, 0x00, 0x00]] :: script,
      trace = [WriteThenRead [0x0C] 1 (Inr [0xC4]), Write [0x26, 0x04] (Inr ()),
               WriteThenRead [0x26] 1 (Inr [0x04]), Delay, WriteThenRead [0x26] 1 (Inr [0x00]),
               Write [0x26, 0xB8] (Inr ()), Write [0x13, 0x07] (Inr ()),
               WriteThenRead [0x26] 1 (Inr [0xB8]), Write [0x26, 0x38] (Inr ())],
      sensor_mode = BAROMETER_M\<rparr> \<and>
   mode_inv mpl3115a2
     \<lparr>device = [] :: script,
      trace = [WriteThenRead [0x0C] 1 (Inr [0xC4]), Write [0x26, 0x04] (Inr ()),
               WriteThenRead [0x26] 1 (Inr [0x04]), Delay, WriteThenRead [0x26] 1 (Inr [0x00]),
               Write [0x26, 0xB8] (Inr ()), Write [0x13, 0x07] (Inr ()),
               WriteThenRead [0x26] 1 (Inr [0xB8]), Write [0x26, 0x38] (Inr ()),
               WriteThenRead [0x26] 1 (Inr [0x38]), Write [0x26, 0x3A] (Inr ()),
               WriteThenRead [0x00] 1 (Inr [0x08]), WriteThenRead [0x01] 3 (Inr [0x01, 0x00, 0x00])],
      sensor_mode = BAROMETER_M\<rparr>"
proof -
  let ?init = "start [Inr [0xC4], Inr [], Inr [0x04], Inr [0x00], Inr [], Inr [],
             Inr [0xB8], Inr [],
             Inr [0x38], Inr [], Inr [0x08], Inr [0x01, 0x00, 0x00]] BAROMETER_M"
  let ?tr1 = "[WriteThenRead [0x0C] 1 (Inr [0xC4]), Write [0x26, 0x04] (Inr ()),
               WriteThenRead [0x26] 1 (Inr [0x04]), Delay, WriteThenRead [0x26] 1 (Inr [0x00 :: byte]),
               Write [0x26, 0xB8] (Inr ()), Write [0x13, 0x07] (Inr ())]"
  let ?tr2 = "?tr1 @ [WriteThenRead [0x26] 1 (Inr [0xB8 :: byte]), Write [0x26, 0x38] (Inr ())]"
  let ?tr3 = "?tr2 @ [WriteThenRead [0x26] 1 (Inr [0x38 :: byte]), Write [0x26, 0x3A] (Inr ()),
               WriteThenRead [0x00] 1 (Inr [0x08]), WriteThenRead [0x01] 3 (Inr [0x01, 0x00, 0x00])]"
  let ?created = "\<lparr>device = [Inr [0xB8], Inr [], Inr [0x38], Inr [], Inr [0x08], Inr [0x01, 0x00, 0x00 :: byte]] :: script,
                   trace = ?tr1, sensor_mode = ALTIMETER_M\<rparr>"
  let ?switched = "\<lparr>device = [Inr [0x38], Inr [], Inr [0x08], Inr [0x01, 0x00, 0x00 :: byte]] :: script,
                    trace = ?tr2, sensor_mode = BAROMETER_M\<rparr>"
  let ?measured = "\<lparr>device = [] :: script, trace = ?tr3, sensor_mode = BAROMETER_M\<rparr>"
  have ok: "regmap_ok mpl3115a2" by (simp add: regmap_ok_def mpl3115a2_def)
  have b: "mpl311_begin mpl3115a2 mock_hw ?init = Some (Inr True, ?created)"
    by (simp add: mpl311_begin_def run_defs)
  have sm: "set_mode mpl3115a2 mock_hw BAROMETER_M ?created = (Inr (), ?switched)"
    by (simp add: set_mode_def mode_set_reg_def run_defs)
  have pr: "api_call mpl3115a2 mock_hw ReadPressure ?switched = Some (Inr (), ?measured)"
    by (simp add: p_read_def pressure_reading_def drop_value_def run_defs)
  have rb1: "readback_consistent mpl3115a2 (last_alt_written mpl3115a2 None (trace ?created))
               (drop (length (trace ?created)) (trace ?switched))"
    by (simp add: mpl3115a2_def)
  have rb2: "readback_consistent mpl3115a2 (last_alt_written mpl3115a2 None (trace ?switched))
               (drop (length (trace ?switched)) (trace ?measured))"
    by (simp add: mpl3115a2_def)
  note A = sensor_mode_tracks_alt_bit[OF ok, where h = mock_hw and ?s0.0 = ?init and s = ?created
             and m = BAROMETER_M and s' = ?switched and op = "SetMode BAROMETER_M" and r = "Inr ()"]
  from A b have inv1: "mode_inv mpl3115a2 ?created" by blast
  from A sm have inv2: "mode_inv mpl3115a2 ?switched" by blast
  have "api_call mpl3115a2 mock_hw (SetMode BAROMETER_M) ?created = Some (Inr (), ?switched)"
    using sm by simp
  with A inv1 rb1 have "mode_inv mpl3115a2 ?switched" by simp
  note B = sensor_mode_tracks_alt_bit[OF ok, where h = mock_hw and ?s0.0 = ?init and s = ?switched
             and m = BAROMETER_M and s' = ?measured and op = ReadPressure and r = "Inr ()"]
  from B inv2 pr rb2 have inv3: "mode_inv mpl3115a2 ?measured" by simp
  show ?thesis using ok b inv1 inv2 inv3 by simp
qed

section \<open>Pressure conversion\<close>

text \<open>
  C9. Once \<open>p_read\<close> has reached its read of the output registers and that read gives the
  bytes MSB, CSB, LSB, \<open>p_read\<close> returns the unsigned number MSB * 65536 + CSB * 256 + LSB
  divided by 64 as pascals. The number is below \<open>2 ^ 24\<close>, so the \<^verbatim>\<open>float\<close> holds it and the
  quotient exactly. For the bytes 0x01, 0x00, 0x00 the result is 1024 Pa.
\<close>

theorem p_read_conversion:
  assumes "p_read_ready c h s = Some (Inr (), s1)"
      and "i2c_transaction h (device_address c) [OUT_P_MSB_R c] 3 (device s1) = (Inr f, d2)"
  shows "p_read c h s =
           Some (Inr \<lparr>pressure = real (unat (f 0) * 65536 + unat (f 1) * 256 + unat (f 2)) / 64\<rparr>,
                 s1\<lparr>device := d2,
                    trace := trace s1 @ [WriteThenRead [OUT_P_MSB_R c] 3 (Inr [f 0, f 1, f 2])]\<rparr>)"
  using assms(1) out3[OF assms(2), of "\<lambda>b0 b1 b2. \<lparr>pressure = real (unat (pressure_reading b0 b1 b2)) / 64\<rparr>"]
  by (simp add: p_read_split and_then_p_def returns_def unat_pressure_reading)

theorem p_read_conversion_witness:
  "p_read mpl3115a2 mock_hw (start [Inr [0x00], Inr [], Inr [0x08], Inr [0x01, 0x00, 0x00]] BAROMETER_M) =
     Some (Inr \<lparr>pressure = 1024\<rparr>,
           \<lparr>device = [],
            trace = [WriteThenRead [0x26] 1 (Inr [0x00]), Write [0x26, 0x02] (Inr ()),
                     WriteThenRead [0x00] 1 (Inr [0x08]),
                     WriteThenRead [0x01] 3 (Inr [0x01, 0x00, 0x00])],
            sensor_mode = BAROMETER_M\<rparr>)"
proof -
  let ?s1 = "\<lparr>device = [Inr [0x01, 0x00, 0x00 :: byte]] :: script,
              trace = [WriteThenRead [0x26] 1 (Inr [0x00]), Write [0x26, 0x02] (Inr ()),
                       WriteThenRead [0x00] 1 (Inr [0x08])],
              sensor_mode = BAROMETER_M\<rparr>"
  let ?f = "\<lambda>i. if i < length [0x01, 0x00, 0x00 :: byte] then [0x01, 0x00, 0x00 :: byte] ! i else 0"
  have 1: "p_read_ready mpl3115a2 mock_hw
             (start [Inr [0x00], Inr [], Inr [0x08], Inr [0x01, 0x00, 0x00]] BAROMETER_M) =
           Some (Inr (), ?s1)"
    by (simp add: p_read_ready_def p_read_armed_def run_defs)
  have 2: "i2c_transaction mock_hw (device_address mpl3115a2) [OUT_P_MSB_R mpl3115a2] 3 (device ?s1) =
           (Inr ?f, [])"
    by (simp add: mock_hw_def)
  show ?thesis
    using p_read_conversion[OF 1 2] by (simp add: mpl3115a2_def)
qed

section \<open>Sea-level pressure\<close>



end
